theory Spec2Isabelle
  imports Complex_Main "HOL-Library.Word" "HOL-Library.Sublist" "HOL-Library.Monad_Syntax"
begin

unbundle bit_operations_syntax

section \<open>Data model\<close>

text \<open>
  The embedding follows \<^verbatim>\<open>src/server/voice-realtime.ts\<close>. JavaScript numbers that hold
  counts, lengths, sample rates (whole Hz) and object handles are \<open>nat\<close>, millisecond clock
  readings are \<open>int\<close>, quantities that the code divides (\<^verbatim>\<open>utteranceMs\<close>, RMS levels) are
  exact rationals, an \<^verbatim>\<open>Int16Array\<close> is a list of 16-bit words, a \<^verbatim>\<open>Buffer\<close> a list of
  bytes, and a \<^verbatim>\<open>Map\<close> a partial function. The fields \<^verbatim>\<open>type\<close>, \<^verbatim>\<open>from\<close>, \<^verbatim>\<open>to\<close> of a
  \<^verbatim>\<open>SignalEvent\<close> carry the prefix \<open>ev_\<close>, and \<^verbatim>\<open>text\<close> of the assistant reply is
  \<open>replyText\<close>, because the short names are reserved words.
\<close>

type_synonym byte = "8 word"
type_synonym int16 = "16 word"

datatype role = User | Assistant | System

record ChatEntry =
  role :: role
  message :: string
  timestamp :: string

datatype event_type = TOffer | TAnswer | TCandidate | TBye | TChat | TSystem | TAssistant

text \<open>
  The \<^verbatim>\<open>payload\<close> of an event is \<^verbatim>\<open>unknown\<close> in the source; the constructors are the
  shapes that the code builds or tests for: \<^verbatim>\<open>{message}\<close>, \<^verbatim>\<open>{type, sdp}\<close> (both strings),
  an ICE candidate with a string \<^verbatim>\<open>candidate\<close>, the assistant turn payload (its two audio
  fields are always \<^verbatim>\<open>null\<close>), and anything else.
\<close>

datatype payload =
    Undefined
  | MessagePayload string
  | DescriptionPayload string string
  | CandidatePayload string
  | AssistantTurnPayload string ChatEntry ChatEntry
  | OtherPayload string

record SignalEvent =
  ev_type :: event_type
  ev_from :: string
  ev_to :: "string option"
  ev_roomId :: string
  ev_payload :: payload
  ev_at :: string

record TurnSegment =
  samples :: "int16 list"
  sampleRate :: nat

record PlaybackItem = TurnSegment +
  cursor :: nat

record AudioFrameLike = TurnSegment +
  channelCount :: "nat option"

record VadState =
  inSpeech :: bool
  lastVoiceAt :: int
  utteranceStartedAt :: int
  utteranceSampleRate :: nat
  utteranceSamples :: nat
  utteranceFrames :: "int16 list list"
  preRollFrames :: "int16 list list"

text \<open>
  \<^verbatim>\<open>drainTurnQueue\<close> is an \<^verbatim>\<open>async\<close> function. Between two of its \<^verbatim>\<open>await\<close>s other
  callbacks run, so an invocation that is suspended is part of the state: \<open>drainTasks\<close>
  lists, for each session, the suspended invocations with the \<^verbatim>\<open>await\<close> they wait at and
  the local variables they hold. It is the only field that is not a field of the source's
  \<^verbatim>\<open>ServerCallSession\<close>. The peer connection, sink, source, track and timer are handles
  of objects that belong to the WebRTC engine and the runtime.
\<close>

datatype drain_await =
    AwaitTranscribe TurnSegment
  | AwaitSynthesize ChatEntry string
  | AwaitDecode ChatEntry ChatEntry "byte list" string

record ServerCallSession =
  roomId :: string
  userPeerId :: string
  botPeerId :: string
  pc :: nat
  sink :: "nat option"
  source :: nat
  sourceTrack :: nat
  vad :: VadState
  turnQueue :: "TurnSegment list"
  processingTurn :: bool
  lastTranscript :: string
  lastTranscriptAt :: int
  playbackQueue :: "PlaybackItem list"
  playbackTimer :: "nat option"
  drainTasks :: "drain_await list"

text \<open>
  A subscriber is a stream controller. It remembers the \<^verbatim>\<open>(peerId, roomId)\<close> it was opened
  for (the closure variables of \<^verbatim>\<open>createSignalEventStream\<close>), whether it is closed (then
  \<^verbatim>\<open>enqueue\<close> throws), and the lines enqueued to it.
\<close>

datatype sse_line = ReadyLine string string | DataLine SignalEvent

record stream_controller =
  st_peerId :: string
  st_roomId :: string
  st_closed :: bool
  st_queue :: "sse_line list"

text \<open>
  Calls that leave the module are recorded, in order, in the \<open>effects\<close> of the world:
  every call of \<^verbatim>\<open>emit\<close> with its arguments (whether or not a subscriber is there to
  receive it) and every call into the WebRTC engine or the timer API.
\<close>

datatype effect =
    Emitted string string SignalEvent
  | SinkStop nat
  | TrackStop nat
  | PcClose nat
  | SetInterval nat
  | ClearInterval nat
  | SourceOnData nat "int16 list"
  | NewPeerConnection nat
  | NewAudioSource nat
  | CreateTrack nat nat
  | PcAddTrack nat nat
  | NewAudioSink nat
  | PcSetRemoteDescription nat string
  | PcAddIceCandidate nat string
  | PcCreateAnswer nat
  | PcSetLocalDescription nat string

record world =
  subscribers :: "string \<rightharpoonup> nat list"
  streams :: "nat \<rightharpoonup> stream_controller"
  roomChat :: "string \<rightharpoonup> ChatEntry list"
  serverSessions :: "string \<rightharpoonup> nat"
  sessions :: "nat \<rightharpoonup> ServerCallSession"
  pendingServerCandidates :: "string \<rightharpoonup> string list"
  wrtcLoadPromise :: "bool option"
  effects :: "effect list"
  nextId :: nat

text \<open>
  What the module cannot decide by itself arrives from the environment of a step: the
  clock, fresh identifiers, which engine call throws, and the answers of the collaborators
  (speech-to-text, language model, text-to-speech, media decoder). \<open>fault\<close> says that the
  promise a suspended \<^verbatim>\<open>drainTurnQueue\<close> waits for rejects for a reason of its own.
\<close>

datatype 'a awaited = Rejected | Fulfilled 'a

datatype llm_response =
    LlmNetworkError
  | LlmTimeout
  | LlmHttpError nat
  | LlmBadBody
  | LlmOk "string option"

record env =
  dateNow :: int
  isoNow :: string
  newId :: string
  throws :: "effect \<Rightarrow> bool"
  fault :: bool
  wrtcImportOk :: bool
  uninit :: "nat \<Rightarrow> byte"
  sttLocal :: "byte list \<Rightarrow> string option"
  apiKey :: "string option"
  sttModel :: string
  sttRemote :: "string \<Rightarrow> byte list \<Rightarrow> string option"
  llm :: "string \<Rightarrow> llm_response"
  jarvisTts :: "string \<Rightarrow> byte list option"
  openAiTts :: "string \<Rightarrow> byte list option"
  ttsFormat :: string
  ffmpeg :: "byte list \<Rightarrow> string \<Rightarrow> int16 list option"
  sttReady :: bool
  ttsReady :: bool
  ffmpegReady :: bool
  answerSdp :: string

datatype js_result = Normal | Throws


section \<open>Constants and array helpers\<close>

definition BOT_PEER_PREFIX :: string where "BOT_PEER_PREFIX = ''friday-voice-bot-''"
definition TURN_SILENCE_MS :: rat where "TURN_SILENCE_MS = 2000"
definition TURN_MIN_MS :: rat where "TURN_MIN_MS = 500"
definition TURN_MAX_MS :: rat where "TURN_MAX_MS = 18000"
definition PRE_ROLL_FRAMES :: nat where "PRE_ROLL_FRAMES = 22"
definition VAD_START_RMS :: rat where "VAD_START_RMS = 15 / 1000"
definition VAD_HOLD_RMS :: rat where "VAD_HOLD_RMS = 8 / 1000"
definition MAX_CHAT_HISTORY :: nat where "MAX_CHAT_HISTORY = 250"
definition PLAYBACK_SAMPLE_RATE :: nat where "PLAYBACK_SAMPLE_RATE = 48000"
definition PLAYBACK_FRAME_MS :: nat where "PLAYBACK_FRAME_MS = 10"
definition MAX_PENDING_SERVER_CANDIDATES :: nat where "MAX_PENDING_SERVER_CANDIDATES = 80"

text \<open>
  \<^verbatim>\<open>xs.slice(-n)\<close> keeps the last \<open>n\<close> elements (all of them when there are fewer);
  \<open>push_capped n x xs\<close> is \<^verbatim>\<open>xs.push(x); if (xs.length > n) xs.shift()\<close>;
  \<open>trim\<close> is \<^verbatim>\<open>String.prototype.trim\<close> over the ASCII white space.
\<close>

definition slice_last :: "nat \<Rightarrow> 'a list \<Rightarrow> 'a list" where
  "slice_last n xs = drop (length xs - n) xs"

definition push_capped :: "nat \<Rightarrow> 'a \<Rightarrow> 'a list \<Rightarrow> 'a list" where
  "push_capped n x xs = (let ys = xs @ [x] in if length ys > n then tl ys else ys)"

definition is_space :: "char \<Rightarrow> bool" where
  "is_space c = (c \<in> set [CHR '' '', CHR 0x09, CHR 0x0A, CHR 0x0B, CHR 0x0C, CHR 0x0D])"

definition trim :: "string \<Rightarrow> string" where
  "trim s = rev (dropWhile is_space (rev (dropWhile is_space s)))"

section \<open>Signaling hub\<close>

definition roomPeerKey :: "string \<Rightarrow> string \<Rightarrow> string" where
  "roomPeerKey room peerId = room @ ''::'' @ peerId"

definition subscriberKey :: "string \<Rightarrow> string \<Rightarrow> string" where
  "subscriberKey peerId room = room @ ''::'' @ peerId"

definition call :: "effect \<Rightarrow> world \<Rightarrow> world" where
  "call e w = w\<lparr> effects := effects w @ [e] \<rparr>"

definition stream_enqueue :: "nat \<Rightarrow> sse_line \<Rightarrow> world \<Rightarrow> world" where
  "stream_enqueue snk line w =
     (case streams w snk of
        None \<Rightarrow> w
      | Some c \<Rightarrow>
          if st_closed c then w
          else w\<lparr> streams := (streams w)(snk \<mapsto> c\<lparr> st_queue := st_queue c @ [line] \<rparr>) \<rparr>)"

definition emit :: "string \<Rightarrow> string \<Rightarrow> SignalEvent \<Rightarrow> world \<Rightarrow> world" where
  "emit peerId room event w0 =
     (let w = call (Emitted peerId room event) w0 in
      case subscribers w (subscriberKey peerId room) of
        None \<Rightarrow> w
      | Some sinks \<Rightarrow>
          if sinks = [] then w
          else fold (\<lambda>snk. stream_enqueue snk (DataLine event)) sinks w)"

definition emitSystem :: "env \<Rightarrow> string \<Rightarrow> string \<Rightarrow> string \<Rightarrow> world \<Rightarrow> world" where
  "emitSystem env peerId room msg w =
     emit peerId room
       \<lparr> ev_type = TSystem, ev_from = ''server'', ev_to = Some peerId, ev_roomId = room,
         ev_payload = MessagePayload msg, ev_at = isoNow env \<rparr> w"

definition openEventStream :: "env \<Rightarrow> string \<Rightarrow> string \<Rightarrow> world \<Rightarrow> world" where
  "openEventStream env peerId room w =
     (let key = subscriberKey peerId room;
          controller = nextId w;
          set0 = (case subscribers w key of None \<Rightarrow> [] | Some cs \<Rightarrow> cs);
          set1 = (if controller \<in> set set0 then set0 else set0 @ [controller]);
          w1 = w\<lparr> nextId := Suc controller,
                   streams := (streams w)(controller \<mapsto>
                      \<lparr> st_peerId = peerId, st_roomId = room, st_closed = False, st_queue = [] \<rparr>),
                   subscribers := (subscribers w)(key \<mapsto> set1) \<rparr>;
          w2 = stream_enqueue controller (ReadyLine peerId room) w1
      in emitSystem env peerId room ''signaling_connected'' w2)"

definition cancelEventStream :: "nat \<Rightarrow> world \<Rightarrow> world" where
  "cancelEventStream controller w0 =
     (case streams w0 controller of
        None \<Rightarrow> w0
      | Some c \<Rightarrow>
          let w = w0\<lparr> streams := (streams w0)(controller \<mapsto> c\<lparr> st_closed := True \<rparr>) \<rparr>;
              key = subscriberKey (st_peerId c) (st_roomId c)
          in case subscribers w key of
               None \<Rightarrow> w
             | Some cs \<Rightarrow>
                 let cs' = removeAll controller cs
                 in if cs' = [] then w\<lparr> subscribers := (subscribers w)(key := None) \<rparr>
                    else w\<lparr> subscribers := (subscribers w)(key \<mapsto> cs') \<rparr>)"

definition isServerBotPeer :: "string \<Rightarrow> bool" where
  "isServerBotPeer peerId = prefix BOT_PEER_PREFIX peerId"

definition asSessionDescription :: "payload \<Rightarrow> (string \<times> string) option" where
  "asSessionDescription p =
     (case p of
        DescriptionPayload t sdp \<Rightarrow>
          if t \<noteq> ''offer'' \<and> t \<noteq> ''answer'' \<and> t \<noteq> ''pranswer'' then None else Some (t, sdp)
      | _ \<Rightarrow> None)"

definition asIceCandidate :: "payload \<Rightarrow> string option" where
  "asIceCandidate p = (case p of CandidatePayload c \<Rightarrow> Some c | _ \<Rightarrow> None)"

section \<open>Audio utilities\<close>

text \<open>
  \<^verbatim>\<open>Math.round\<close> rounds half up. \<^verbatim>\<open>rmsLevel(frame) >= t\<close> is stated without the square
  root: for \<open>t \<ge> 0\<close> it is \<open>t\<^sup>2 \<le>\<close> the mean of the squared normalised samples.
\<close>

definition concatInt16 :: "int16 list list \<Rightarrow> int16 list" where
  "concatInt16 frames = concat frames"

definition js_round :: "rat \<Rightarrow> int" where
  "js_round q = \<lfloor>q + 1 / 2\<rfloor>"

definition downmixToMono :: "int16 list \<Rightarrow> nat \<Rightarrow> int16 list" where
  "downmixToMono smp channels =
     (if channels \<le> 1 then smp
      else
        let frameCount = length smp div channels
        in map (\<lambda>frameIndex.
                 let sum = (\<Sum>channel \<leftarrow> [0..<channels]. sint (smp ! (frameIndex * channels + channel)))
                 in of_int (max (- 32768) (min 32767 (js_round (of_int sum / of_nat channels)))))
               [0..<frameCount])"

definition meanSquare :: "int16 list \<Rightarrow> rat" where
  "meanSquare smp =
     (if smp = [] then 0
      else (\<Sum>s \<leftarrow> smp. (of_int (sint s) / 32768) * (of_int (sint s) / 32768)) / of_nat (length smp))"

definition rmsAtLeast :: "rat \<Rightarrow> int16 list \<Rightarrow> bool" where
  "rmsAtLeast threshold smp = (threshold * threshold \<le> meanSquare smp)"

section \<open>Voice-activity state and chat log\<close>

definition pushVadFrame :: "VadState \<Rightarrow> int16 list \<Rightarrow> VadState" where
  "pushVadFrame v frame = v\<lparr> preRollFrames := push_capped PRE_ROLL_FRAMES frame (preRollFrames v) \<rparr>"

definition resetVad :: "VadState \<Rightarrow> VadState" where
  "resetVad v = v\<lparr> inSpeech := False, lastVoiceAt := 0, utteranceStartedAt := 0,
                   utteranceSampleRate := 0, utteranceSamples := 0, utteranceFrames := [] \<rparr>"

definition addChatEntry :: "string \<Rightarrow> ChatEntry \<Rightarrow> (string \<rightharpoonup> ChatEntry list) \<Rightarrow> (string \<rightharpoonup> ChatEntry list)" where
  "addChatEntry room entry chat =
     (let existing = (case chat room of None \<Rightarrow> [] | Some es \<Rightarrow> es);
          next = slice_last MAX_CHAT_HISTORY (existing @ [entry])
      in chat(room \<mapsto> next))"

definition getChatHistory :: "(string \<rightharpoonup> ChatEntry list) \<Rightarrow> string \<Rightarrow> ChatEntry list" where
  "getChatHistory chat room = (case chat room of None \<Rightarrow> [] | Some es \<Rightarrow> es)"

text \<open>A sequence of \<^verbatim>\<open>addChatEntry(roomId, entry)\<close> calls, run in order, and the entries it adds to one room.\<close>

fun addChatEntries :: "(string \<times> ChatEntry) list \<Rightarrow> (string \<rightharpoonup> ChatEntry list) \<Rightarrow> (string \<rightharpoonup> ChatEntry list)" where
  "addChatEntries [] chat = chat"
| "addChatEntries ((room, entry) # calls) chat = addChatEntries calls (addChatEntry room entry chat)"

definition entriesFor :: "string \<Rightarrow> (string \<times> ChatEntry) list \<Rightarrow> ChatEntry list" where
  "entriesFor room calls = map snd (filter (\<lambda>c. fst c = room) calls)"

definition updSession :: "nat \<Rightarrow> (ServerCallSession \<Rightarrow> ServerCallSession) \<Rightarrow> world \<Rightarrow> world" where
  "updSession sid f w =
     (case sessions w sid of
        None \<Rightarrow> w
      | Some s \<Rightarrow> w\<lparr> sessions := (sessions w)(sid \<mapsto> f s) \<rparr>)"

section \<open>WAV packaging\<close>

text \<open>
  \<^verbatim>\<open>Buffer.allocUnsafe\<close> returns memory that is not initialised: its bytes are a parameter.
  \<^verbatim>\<open>writeUInt32LE\<close> and \<^verbatim>\<open>writeUInt16LE\<close> throw a \<^verbatim>\<open>RangeError\<close> for a value outside the
  unsigned range of the field or an offset outside the buffer: the result \<open>None\<close>.
\<close>

definition allocUnsafe :: "(nat \<Rightarrow> byte) \<Rightarrow> nat \<Rightarrow> byte list" where
  "allocUnsafe mem n = map mem [0..<n]"

fun put :: "byte list \<Rightarrow> nat \<Rightarrow> byte list \<Rightarrow> byte list" where
  "put buf off [] = buf"
| "put buf off (b # bs) = put (buf[off := b]) (Suc off) bs"

definition ascii :: "string \<Rightarrow> byte list" where
  "ascii s = map of_char s"

definition buf_write :: "string \<Rightarrow> nat \<Rightarrow> byte list \<Rightarrow> byte list" where
  "buf_write s off buf = put buf off (ascii s)"

definition u32le :: "nat \<Rightarrow> byte list" where
  "u32le v = [of_nat v, of_nat (v div 256), of_nat (v div 65536), of_nat (v div 16777216)]"

definition u16le :: "nat \<Rightarrow> byte list" where
  "u16le v = [of_nat v, of_nat (v div 256)]"

definition writeUInt32LE :: "nat \<Rightarrow> nat \<Rightarrow> byte list \<Rightarrow> byte list option" where
  "writeUInt32LE v off buf =
     (if v > 4294967295 \<or> off + 4 > length buf then None else Some (put buf off (u32le v)))"

definition writeUInt16LE :: "nat \<Rightarrow> nat \<Rightarrow> byte list \<Rightarrow> byte list option" where
  "writeUInt16LE v off buf =
     (if v > 65535 \<or> off + 2 > length buf then None else Some (put buf off (u16le v)))"

definition i16le :: "int16 \<Rightarrow> byte list" where
  "i16le s = [ucast s, ucast (drop_bit 8 s)]"

fun setSamples :: "byte list \<Rightarrow> nat \<Rightarrow> int16 list \<Rightarrow> byte list" where
  "setSamples out off [] = out"
| "setSamples out off (s # ss) = setSamples (put out off (i16le s)) (off + 2) ss"

definition le_nat :: "byte list \<Rightarrow> nat" where
  "le_nat bs = foldr (\<lambda>b acc. unat b + 256 * acc) bs 0"

definition i16_of :: "byte \<Rightarrow> byte \<Rightarrow> int16" where
  "i16_of lo hi = push_bit 8 (ucast hi) OR ucast lo"

definition createWavFromPcm16Mono :: "(nat \<Rightarrow> byte) \<Rightarrow> int16 list \<Rightarrow> nat \<Rightarrow> byte list option" where
  "createWavFromPcm16Mono mem smp rate =
     (let byteLength = length smp * 2;
          out = allocUnsafe mem (44 + byteLength)
      in do {
        out \<leftarrow> Some (buf_write ''RIFF'' 0 out);
        out \<leftarrow> writeUInt32LE (36 + byteLength) 4 out;
        out \<leftarrow> Some (buf_write ''WAVE'' 8 out);
        out \<leftarrow> Some (buf_write ''fmt '' 12 out);
        out \<leftarrow> writeUInt32LE 16 16 out;
        out \<leftarrow> writeUInt16LE 1 20 out;
        out \<leftarrow> writeUInt16LE 1 22 out;
        out \<leftarrow> writeUInt32LE rate 24 out;
        out \<leftarrow> writeUInt32LE (rate * 2) 28 out;
        out \<leftarrow> writeUInt16LE 2 32 out;
        out \<leftarrow> writeUInt16LE 16 34 out;
        out \<leftarrow> Some (buf_write ''data'' 36 out);
        out \<leftarrow> writeUInt32LE byteLength 40 out;
        Some (setSamples out 44 smp)
      })"

text \<open>
  Modelled from the spec: the reader of the round-trip law (``PCM-16 mono samples, WAV
  header prepend, parse, samples are byte-identical''). The repository has no WAV parser
  (the file goes to the speech-to-text collaborator); \<open>parseWav\<close> reads the canonical
  44-byte RIFF/WAVE layout, little-endian.
\<close>

record WavFile =
  wavFormat :: nat
  wavChannels :: nat
  wavSampleRate :: nat
  wavByteRate :: nat
  wavBlockAlign :: nat
  wavBitsPerSample :: nat
  wavSamples :: "int16 list"

fun samples_of :: "byte list \<Rightarrow> int16 list" where
  "samples_of (lo # hi # bs) = i16_of lo hi # samples_of bs"
| "samples_of _ = []"

definition bytes_at :: "nat \<Rightarrow> nat \<Rightarrow> byte list \<Rightarrow> byte list" where
  "bytes_at off n wav = take n (drop off wav)"

definition parseWav :: "byte list \<Rightarrow> WavFile option" where
  "parseWav wav =
     (if length wav < 44 then None
      else if bytes_at 0 4 wav \<noteq> ascii ''RIFF'' then None
      else if le_nat (bytes_at 4 4 wav) \<noteq> length wav - 8 then None
      else if bytes_at 8 4 wav \<noteq> ascii ''WAVE'' then None
      else if bytes_at 12 4 wav \<noteq> ascii ''fmt '' then None
      else if le_nat (bytes_at 16 4 wav) \<noteq> 16 then None
      else if bytes_at 36 4 wav \<noteq> ascii ''data'' then None
      else if le_nat (bytes_at 40 4 wav) \<noteq> length wav - 44 then None
      else Some \<lparr> wavFormat = le_nat (bytes_at 20 2 wav),
                  wavChannels = le_nat (bytes_at 22 2 wav),
                  wavSampleRate = le_nat (bytes_at 24 4 wav),
                  wavByteRate = le_nat (bytes_at 28 4 wav),
                  wavBlockAlign = le_nat (bytes_at 32 2 wav),
                  wavBitsPerSample = le_nat (bytes_at 34 2 wav),
                  wavSamples = samples_of (drop 44 wav) \<rparr>)"

definition wav_header :: "nat \<Rightarrow> nat \<Rightarrow> byte list" where
  "wav_header byteLength rate =
     ascii ''RIFF'' @ u32le (36 + byteLength) @ ascii ''WAVE'' @
     ascii ''fmt '' @ u32le 16 @ u16le 1 @ u16le 1 @ u32le rate @
     u32le (rate * 2) @ u16le 2 @ u16le 16 @
     ascii ''data'' @ u32le byteLength"


section \<open>Turn pipeline collaborators\<close>

definition b64chars :: string where
  "b64chars = ''ABCDEFGHIJKLMNOPQRSTUVWXYZabcdefghijklmnopqrstuvwxyz0123456789+/''"

fun base64 :: "byte list \<Rightarrow> string" where
  "base64 (a # b # c # rest) =
     (let n = unat a * 65536 + unat b * 256 + unat c
      in [b64chars ! (n div 262144), b64chars ! (n div 4096 mod 64),
          b64chars ! (n div 64 mod 64), b64chars ! (n mod 64)] @ base64 rest)"
| "base64 [a, b] =
     (let n = unat a * 65536 + unat b * 256
      in [b64chars ! (n div 262144), b64chars ! (n div 4096 mod 64),
          b64chars ! (n div 64 mod 64), CHR ''=''])"
| "base64 [a] =
     (let n = unat a * 65536
      in [b64chars ! (n div 262144), b64chars ! (n div 4096 mod 64), CHR ''='', CHR ''=''])"
| "base64 [] = []"

definition transcribeWithOpenAi :: "env \<Rightarrow> byte list \<Rightarrow> string option" where
  "transcribeWithOpenAi env audio =
     (if apiKey env = None \<or> apiKey env = Some [] then None
      else
        let models = [sttModel env, ''whisper-1''];
            texts = List.map_filter (\<lambda>model. case sttRemote env model audio of
                                       None \<Rightarrow> None
                                     | Some t \<Rightarrow> if trim t = [] then None else Some (trim t)) models
        in case texts of [] \<Rightarrow> None | t # _ \<Rightarrow> Some t)"

definition transcribeAudioBuffer :: "env \<Rightarrow> byte list \<Rightarrow> string option" where
  "transcribeAudioBuffer env audio =
     (case sttLocal env audio of
        Some stdout \<Rightarrow>
          if trim stdout \<noteq> [] then Some (trim stdout) else transcribeWithOpenAi env audio
      | None \<Rightarrow> transcribeWithOpenAi env audio)"

definition transcribePcmTurn :: "env \<Rightarrow> TurnSegment \<Rightarrow> string option awaited" where
  "transcribePcmTurn env turn =
     (case createWavFromPcm16Mono (uninit env) (samples turn) (sampleRate turn) of
        None \<Rightarrow> Rejected
      | Some wavBuffer \<Rightarrow> Fulfilled (transcribeAudioBuffer env wavBuffer))"

definition decodeAudioToPcm16Mono :: "env \<Rightarrow> byte list \<Rightarrow> string \<Rightarrow> int16 list option" where
  "decodeAudioToPcm16Mono env audioBuffer inputExt = ffmpeg env audioBuffer inputExt"

definition tryJarvisTtsBuffer :: "env \<Rightarrow> string \<Rightarrow> byte list option" where
  "tryJarvisTtsBuffer env txt = jarvisTts env txt"

definition tryOpenAiTtsBuffer :: "env \<Rightarrow> string \<Rightarrow> (byte list \<times> string) option" where
  "tryOpenAiTtsBuffer env txt =
     (if apiKey env = None \<or> apiKey env = Some [] then None
      else case openAiTts env txt of
             None \<Rightarrow> None
           | Some buffer \<Rightarrow> Some (buffer, ttsFormat env))"

definition requestLlmReply :: "env \<Rightarrow> string \<Rightarrow> string awaited" where
  "requestLlmReply env input =
     (case llm env input of
        LlmOk t \<Rightarrow>
          let replyText = (case t of None \<Rightarrow> [] | Some x \<Rightarrow> trim x)
          in Fulfilled (if replyText = [] then ''Proceeding.'' else replyText)
      | _ \<Rightarrow> Rejected)"

record AssistantReply =
  replyText :: string
  audioBuffer :: "byte list option"
  audioFormat :: string
  audioBase64 :: "string option"

definition synthesizeAssistantReply :: "env \<Rightarrow> string \<Rightarrow> AssistantReply" where
  "synthesizeAssistantReply env input =
     (let txt = (case requestLlmReply env input of
                   Fulfilled t \<Rightarrow> t
                 | Rejected \<Rightarrow> ''Comms degraded. Retry in a moment.'');
          jarvis = tryJarvisTtsBuffer env txt;
          openAi = (if jarvis = None then tryOpenAiTtsBuffer env txt else None);
          buf = (if jarvis = None then map_option fst openAi else jarvis);
          fmt = (if jarvis = None then (case openAi of None \<Rightarrow> ''ogg'' | Some r \<Rightarrow> snd r)
                 else ''ogg'')
      in \<lparr> replyText = txt, audioBuffer = buf, audioFormat = fmt,
           audioBase64 = map_option base64 buf \<rparr>)"


section \<open>Turn queue and its worker\<close>

text \<open>
  \<open>drainTurnQueue\<close> is the call of the \<^verbatim>\<open>async\<close> function up to its first \<^verbatim>\<open>await\<close>;
  \<open>drainLoop\<close> is the head of its \<^verbatim>\<open>while\<close> loop, \<open>drainFinally\<close> its \<^verbatim>\<open>finally\<close> block
  and \<open>drainResume\<close> the continuation of the suspended invocation number \<open>i\<close> once the
  promise it waits for has settled, up to the next \<^verbatim>\<open>await\<close> or the end.
\<close>

definition remove_nth :: "nat \<Rightarrow> 'a list \<Rightarrow> 'a list" where
  "remove_nth i xs = take i xs @ drop (Suc i) xs"

definition drainFinally :: "nat \<Rightarrow> world \<Rightarrow> world" where
  "drainFinally sid w = updSession sid (\<lambda>s. s\<lparr> processingTurn := False \<rparr>) w"

definition drainLoop :: "nat \<Rightarrow> world \<Rightarrow> world" where
  "drainLoop sid w =
     (case sessions w sid of
        None \<Rightarrow> w
      | Some session \<Rightarrow>
          (case turnQueue session of
             [] \<Rightarrow> drainFinally sid w
           | turn # rest \<Rightarrow>
               updSession sid (\<lambda>s. s\<lparr> turnQueue := rest,
                                        drainTasks := drainTasks s @ [AwaitTranscribe turn] \<rparr>) w))"

definition drainTurnQueue :: "nat \<Rightarrow> world \<Rightarrow> world" where
  "drainTurnQueue sid w =
     (case sessions w sid of
        None \<Rightarrow> w
      | Some session \<Rightarrow>
          if processingTurn session then w
          else drainLoop sid (updSession sid (\<lambda>s. s\<lparr> processingTurn := True \<rparr>) w))"

definition enqueueTurn :: "nat \<Rightarrow> TurnSegment \<Rightarrow> world \<Rightarrow> world" where
  "enqueueTurn sid turn w =
     drainTurnQueue sid
       (updSession sid (\<lambda>s. s\<lparr> turnQueue := push_capped 3 turn (turnQueue s) \<rparr>) w)"

section \<open>Turn segmentation\<close>

definition utteranceMsOf :: "VadState \<Rightarrow> rat" where
  "utteranceMsOf v = (of_nat (utteranceSamples v) / of_nat (utteranceSampleRate v)) * 1000"

definition maybeFinalizeUtterance :: "env \<Rightarrow> nat \<Rightarrow> int \<Rightarrow> world \<Rightarrow> world" where
  "maybeFinalizeUtterance env sid now w =
     (case sessions w sid of
        None \<Rightarrow> w
      | Some session \<Rightarrow>
          let v = vad session in
          if \<not> inSpeech v then w
          else if utteranceSampleRate v = 0 \<or> utteranceSamples v = 0 then w
          else
            let utteranceMs = utteranceMsOf v;
                silenceMs = of_int (now - lastVoiceAt v)
            in if utteranceMs < TURN_MAX_MS \<and> (silenceMs < TURN_SILENCE_MS \<or> utteranceMs < TURN_MIN_MS)
               then w
               else
                 let smp = concatInt16 (utteranceFrames v);
                     rate = utteranceSampleRate v;
                     w1 = updSession sid (\<lambda>s. s\<lparr> vad := resetVad (vad s) \<rparr>) w
                 in if smp = [] \<or> utteranceMs < TURN_MIN_MS then w1
                    else enqueueTurn sid \<lparr> samples = smp, sampleRate = rate \<rparr>
                           (emitSystem env (userPeerId session) (roomId session)
                              ''voice_turn_detected'' w1))"

definition handleInboundAudioFrame :: "env \<Rightarrow> nat \<Rightarrow> AudioFrameLike \<Rightarrow> world \<Rightarrow> world" where
  "handleInboundAudioFrame env sid frame w =
     (let rate = sampleRate frame in
      if rate < 8000 \<or> rate > 96000 then w
      else
        case sessions w sid of
          None \<Rightarrow> w
        | Some session \<Rightarrow>
            let channels = (case channelCount frame of None \<Rightarrow> 1 | Some c \<Rightarrow> c);
                monoFrame = downmixToMono (samples frame) channels;
                now = dateNow env;
                v1 = pushVadFrame (vad session) monoFrame;
                v2 = (if rmsAtLeast VAD_START_RMS monoFrame \<and> \<not> inSpeech v1
                      then v1\<lparr> inSpeech := True, lastVoiceAt := now, utteranceStartedAt := now,
                               utteranceSampleRate := rate,
                               utteranceFrames := preRollFrames v1,
                               utteranceSamples := sum_list (map length (preRollFrames v1)) \<rparr>
                      else v1)
            in if inSpeech v2
               then
                 let v3 = v2\<lparr> utteranceFrames := utteranceFrames v2 @ [monoFrame],
                               utteranceSamples := utteranceSamples v2 + length monoFrame \<rparr>;
                     v4 = (if rmsAtLeast VAD_HOLD_RMS monoFrame then v3\<lparr> lastVoiceAt := now \<rparr> else v3)
                 in maybeFinalizeUtterance env sid now (updSession sid (\<lambda>s. s\<lparr> vad := v4 \<rparr>) w)
               else updSession sid (\<lambda>s. s\<lparr> vad := v2 \<rparr>) w)"

section \<open>Playback pacer\<close>

text \<open>
  \<open>playbackTick\<close> is the callback of \<^verbatim>\<open>setInterval\<close> in \<^verbatim>\<open>startPlaybackLoop\<close>; it runs only
  while the session holds the timer.
\<close>

definition frameSize :: nat where
  "frameSize = nat (js_round (of_nat (PLAYBACK_SAMPLE_RATE * PLAYBACK_FRAME_MS) / 1000))"

definition stopPlaybackTimer :: "nat \<Rightarrow> world \<Rightarrow> world" where
  "stopPlaybackTimer sid w =
     (case sessions w sid of
        None \<Rightarrow> w
      | Some session \<Rightarrow>
          (case playbackTimer session of
             None \<Rightarrow> w
           | Some t \<Rightarrow> updSession sid (\<lambda>s. s\<lparr> playbackTimer := None \<rparr>) (call (ClearInterval t) w)))"

definition playbackTick :: "env \<Rightarrow> nat \<Rightarrow> world \<Rightarrow> world" where
  "playbackTick env sid w =
     (case sessions w sid of
        None \<Rightarrow> w
      | Some session \<Rightarrow>
          if playbackTimer session = None then w
          else
            (case playbackQueue session of
               [] \<Rightarrow> stopPlaybackTimer sid w
             | current # rest \<Rightarrow>
                 if cursor current \<ge> length (samples current)
                 then updSession sid (\<lambda>s. s\<lparr> playbackQueue := rest \<rparr>) w
                 else
                   let nextEnd = min (length (samples current)) (cursor current + frameSize);
                       sub = take (nextEnd - cursor current) (drop (cursor current) (samples current));
                       frame = (if length sub < frameSize
                                then sub @ replicate (frameSize - length sub) 0
                                else sub);
                       w1 = updSession sid
                              (\<lambda>s. s\<lparr> playbackQueue := current\<lparr> cursor := nextEnd \<rparr> # rest \<rparr>) w;
                       w2 = call (SourceOnData (source session) frame) w1
                   in if throws env (SourceOnData (source session) frame)
                      then stopPlaybackTimer sid
                             (updSession sid (\<lambda>s. s\<lparr> playbackQueue := [] \<rparr>) w2)
                      else w2))"

definition startPlaybackLoop :: "nat \<Rightarrow> world \<Rightarrow> world" where
  "startPlaybackLoop sid w =
     (case sessions w sid of
        None \<Rightarrow> w
      | Some session \<Rightarrow>
          if playbackTimer session \<noteq> None then w
          else
            let t = nextId w
            in updSession sid (\<lambda>s. s\<lparr> playbackTimer := Some t \<rparr>)
                 (call (SetInterval t) (w\<lparr> nextId := Suc t \<rparr>)))"

definition enqueueAssistantAudio :: "nat \<Rightarrow> int16 list \<Rightarrow> world \<Rightarrow> world" where
  "enqueueAssistantAudio sid smp w =
     (if smp = [] then w
      else startPlaybackLoop sid
             (updSession sid
                (\<lambda>s. s\<lparr> playbackQueue := playbackQueue s @
                           [\<lparr> samples = smp, sampleRate = PLAYBACK_SAMPLE_RATE, cursor = 0 \<rparr>] \<rparr>) w))"

section \<open>Turn worker: the continuations\<close>

definition postChat :: "string \<Rightarrow> ChatEntry \<Rightarrow> world \<Rightarrow> world" where
  "postChat room entry w = w\<lparr> roomChat := addChatEntry room entry (roomChat w) \<rparr>"

definition drainEmitAssistant :: "env \<Rightarrow> nat \<Rightarrow> ChatEntry \<Rightarrow> ChatEntry \<Rightarrow> world \<Rightarrow> world" where
  "drainEmitAssistant env sid userEntry reply w =
     (case sessions w sid of
        None \<Rightarrow> w
      | Some session \<Rightarrow>
          drainLoop sid
            (emit (userPeerId session) (roomId session)
               \<lparr> ev_type = TAssistant, ev_from = ''server'', ev_to = Some (userPeerId session),
                 ev_roomId = roomId session,
                 ev_payload = AssistantTurnPayload (newId env) userEntry reply,
                 ev_at = isoNow env \<rparr> w))"

definition drainResume :: "env \<Rightarrow> nat \<Rightarrow> nat \<Rightarrow> world \<Rightarrow> world" where
  "drainResume env sid i w =
     (case sessions w sid of
        None \<Rightarrow> w
      | Some session \<Rightarrow>
          if i \<ge> length (drainTasks session) then w
          else
            let task = drainTasks session ! i;
                w1 = updSession sid (\<lambda>s. s\<lparr> drainTasks := remove_nth i (drainTasks s) \<rparr>) w
            in if fault env then drainFinally sid w1
               else
                 (case task of
                    AwaitTranscribe turn \<Rightarrow>
                      (case transcribePcmTurn env turn of
                         Rejected \<Rightarrow> drainFinally sid w1
                       | Fulfilled r \<Rightarrow>
                           let transcript = (case r of None \<Rightarrow> [] | Some t \<Rightarrow> trim t)
                           in if transcript = []
                              then drainLoop sid
                                     (emitSystem env (userPeerId session) (roomId session)
                                        ''transcription_empty'' w1)
                              else
                                let now = dateNow env
                                in if transcript = lastTranscript session
                                      \<and> now - lastTranscriptAt session < 2500
                                   then drainLoop sid w1
                                   else
                                     let userEntry = \<lparr> role = User, message = transcript,
                                                        timestamp = isoNow env \<rparr>
                                     in postChat (roomId session) userEntry
                                          (updSession sid
                                             (\<lambda>s. s\<lparr> lastTranscript := transcript,
                                                      lastTranscriptAt := now,
                                                      drainTasks := drainTasks s @
                                                        [AwaitSynthesize userEntry transcript] \<rparr>)
                                             w1))
                  | AwaitSynthesize userEntry transcript \<Rightarrow>
                      let r = synthesizeAssistantReply env transcript;
                          reply = \<lparr> role = Assistant, message = replyText r,
                                    timestamp = isoNow env \<rparr>;
                          w2 = postChat (roomId session) reply w1
                      in (case audioBuffer r of
                            Some buf \<Rightarrow>
                              updSession sid
                                (\<lambda>s. s\<lparr> drainTasks := drainTasks s @
                                           [AwaitDecode userEntry reply buf (audioFormat r)] \<rparr>) w2
                          | None \<Rightarrow> drainEmitAssistant env sid userEntry reply w2)
                  | AwaitDecode userEntry reply buf fmt \<Rightarrow>
                      let pcm = decodeAudioToPcm16Mono env buf fmt;
                          w2 = (case pcm of
                                  None \<Rightarrow> w1
                                | Some p \<Rightarrow> if p = [] then w1 else enqueueAssistantAudio sid p w1)
                      in drainEmitAssistant env sid userEntry reply w2))"


section \<open>Session manager\<close>

text \<open>
  \<^verbatim>\<open>handleServerBotSignal\<close> and \<^verbatim>\<open>createServerSession\<close> are \<^verbatim>\<open>async\<close>; each is taken as one
  step, the engine calls it awaits answering at once (from \<open>env\<close>). \<^verbatim>\<open>sink.stop()\<close> in
  \<^verbatim>\<open>closeSession\<close> is outside any \<^verbatim>\<open>try\<close>: when it throws, \<open>closeSession\<close> stops there.
\<close>

definition getServerSession :: "world \<Rightarrow> string \<Rightarrow> string \<Rightarrow> (nat \<times> ServerCallSession) option" where
  "getServerSession w room peer =
     (case serverSessions w (roomPeerKey room peer) of
        None \<Rightarrow> None
      | Some sid \<Rightarrow> (case sessions w sid of None \<Rightarrow> None | Some s \<Rightarrow> Some (sid, s)))"

definition closeSession :: "env \<Rightarrow> string \<Rightarrow> string \<Rightarrow> world \<Rightarrow> js_result \<times> world" where
  "closeSession env room peer w =
     (let key = roomPeerKey room peer in
      case getServerSession w room peer of
        None \<Rightarrow> (Normal, w)
      | Some (sid, session) \<Rightarrow>
          let w1 = w\<lparr> pendingServerCandidates := (pendingServerCandidates w)(key := None),
                       serverSessions := (serverSessions w)(key := None) \<rparr>;
              w2 = updSession sid (\<lambda>s. s\<lparr> vad := resetVad (vad s) \<rparr>) w1;
              w3 = (case sink session of None \<Rightarrow> w2 | Some k \<Rightarrow> call (SinkStop k) w2)
          in if (case sink session of None \<Rightarrow> False | Some k \<Rightarrow> throws env (SinkStop k))
             then (Throws, w3)
             else
               let w4 = updSession sid (\<lambda>s. s\<lparr> sink := None \<rparr>) w3;
                   w5 = stopPlaybackTimer sid w4;
                   w6 = updSession sid (\<lambda>s. s\<lparr> playbackQueue := [] \<rparr>) w5;
                   w7 = call (TrackStop (sourceTrack session)) w6;
                   w8 = call (PcClose (pc session)) w7
               in (Normal, w8))"

definition loadWrtc :: "env \<Rightarrow> world \<Rightarrow> bool \<times> world" where
  "loadWrtc env w =
     (case wrtcLoadPromise w of
        Some loaded \<Rightarrow> (loaded, w)
      | None \<Rightarrow> (wrtcImportOk env, w\<lparr> wrtcLoadPromise := Some (wrtcImportOk env) \<rparr>))"

fun run_calls :: "env \<Rightarrow> effect list \<Rightarrow> world \<Rightarrow> js_result \<times> world" where
  "run_calls env [] w = (Normal, w)"
| "run_calls env (c # cs) w =
     (if throws env c then (Throws, call c w) else run_calls env cs (call c w))"

definition newVad :: VadState where
  "newVad = \<lparr> inSpeech = False, lastVoiceAt = 0, utteranceStartedAt = 0, utteranceSampleRate = 0,
              utteranceSamples = 0, utteranceFrames = [], preRollFrames = [] \<rparr>"

definition newSession :: "string \<Rightarrow> string \<Rightarrow> string \<Rightarrow> nat \<Rightarrow> nat \<Rightarrow> nat \<Rightarrow> ServerCallSession" where
  "newSession room user botPeer pcId sourceId trackId =
     \<lparr> roomId = room, userPeerId = user, botPeerId = botPeer, pc = pcId, sink = None,
       source = sourceId, sourceTrack = trackId, vad = newVad, turnQueue = [],
       processingTurn = False, lastTranscript = [], lastTranscriptAt = 0, playbackQueue = [],
       playbackTimer = None, drainTasks = [] \<rparr>"

definition createServerSession ::
  "env \<Rightarrow> string \<Rightarrow> string \<Rightarrow> string \<Rightarrow> world \<Rightarrow> js_result \<times> nat option \<times> world" where
  "createServerSession env room user botPeer w0 =
     (case closeSession env room user w0 of
        (Throws, w) \<Rightarrow> (Throws, None, w)
      | (Normal, w) \<Rightarrow>
          (case loadWrtc env w of
             (False, w1) \<Rightarrow> (Normal, None, emitSystem env user room ''wrtc_unavailable'' w1)
           | (True, w1) \<Rightarrow>
               let pcId = nextId w1;
                   sourceId = pcId + 1;
                   trackId = pcId + 2;
                   sid = pcId + 3;
                   w2 = w1\<lparr> nextId := pcId + 4 \<rparr>
               in (case run_calls env [NewPeerConnection pcId, NewAudioSource sourceId,
                                       CreateTrack sourceId trackId, PcAddTrack pcId trackId] w2 of
                     (Throws, w3) \<Rightarrow> (Throws, None, w3)
                   | (Normal, w3) \<Rightarrow>
                       let session = newSession room user botPeer pcId sourceId trackId
                       in (Normal, Some sid,
                           w3\<lparr> sessions := (sessions w3)(sid \<mapsto> session),
                               serverSessions := (serverSessions w3)(roomPeerKey room user \<mapsto> sid) \<rparr>))))"

definition verifyVoiceTooling :: "env \<Rightarrow> nat \<Rightarrow> world \<Rightarrow> world" where
  "verifyVoiceTooling env sid w =
     (case sessions w sid of
        None \<Rightarrow> w
      | Some session \<Rightarrow>
          let noKey = (apiKey env = None \<or> apiKey env = Some []);
              w1 = (if \<not> sttReady env \<and> noKey
                    then emitSystem env (userPeerId session) (roomId session) ''stt_binary_missing'' w
                    else w);
              w2 = (if \<not> ttsReady env \<and> noKey
                    then emitSystem env (userPeerId session) (roomId session) ''tts_binary_missing'' w1
                    else w1)
          in if \<not> ffmpegReady env
             then emitSystem env (userPeerId session) (roomId session) ''ffmpeg_missing'' w2
             else w2)"

definition addQueuedCandidates :: "nat \<Rightarrow> string list \<Rightarrow> world \<Rightarrow> world" where
  "addQueuedCandidates pcId queued w = fold (\<lambda>c. call (PcAddIceCandidate pcId c)) queued w"

definition answerOffer :: "env \<Rightarrow> SignalEvent \<Rightarrow> nat \<Rightarrow> string \<Rightarrow> world \<Rightarrow> js_result \<times> world" where
  "answerOffer env event sid sdp w =
     (case sessions w sid of
        None \<Rightarrow> (Normal, w)
      | Some session \<Rightarrow>
          let key = roomPeerKey (ev_roomId event) (ev_from event);
              w1 = call (PcSetRemoteDescription (pc session) sdp) w
          in if throws env (PcSetRemoteDescription (pc session) sdp) then (Throws, w1)
             else
               let w2 = (case pendingServerCandidates w1 key of
                           None \<Rightarrow> w1
                         | Some queued \<Rightarrow>
                             if queued = [] then w1
                             else (addQueuedCandidates (pc session) queued w1)
                                    \<lparr> pendingServerCandidates :=
                                        (pendingServerCandidates w1)(key := None) \<rparr>);
                   w3 = call (PcCreateAnswer (pc session)) w2
               in if throws env (PcCreateAnswer (pc session)) then (Throws, w3)
                  else
                    let w4 = call (PcSetLocalDescription (pc session) (answerSdp env)) w3
                    in if throws env (PcSetLocalDescription (pc session) (answerSdp env))
                       then (Throws, w4)
                       else (Normal,
                             emit (ev_from event) (ev_roomId event)
                               \<lparr> ev_type = TAnswer, ev_from = botPeerId session,
                                 ev_to = Some (ev_from event), ev_roomId = ev_roomId event,
                                 ev_payload = DescriptionPayload ''answer'' (answerSdp env),
                                 ev_at = isoNow env \<rparr> w4))"

definition handleServerBotSignal :: "env \<Rightarrow> SignalEvent \<Rightarrow> world \<Rightarrow> js_result \<times> world" where
  "handleServerBotSignal env event w =
     (let key = roomPeerKey (ev_roomId event) (ev_from event) in
      if ev_type event = TBye then closeSession env (ev_roomId event) (ev_from event) w
      else if ev_type event = TCandidate then
        (case asIceCandidate (ev_payload event) of
           None \<Rightarrow> (Normal, w)
         | Some candidate \<Rightarrow>
             (case getServerSession w (ev_roomId event) (ev_from event) of
                None \<Rightarrow>
                  let queue = (case pendingServerCandidates w key of None \<Rightarrow> [] | Some q \<Rightarrow> q)
                  in (Normal,
                      w\<lparr> pendingServerCandidates := (pendingServerCandidates w)
                            (key \<mapsto> push_capped MAX_PENDING_SERVER_CANDIDATES candidate queue) \<rparr>)
              | Some (sid, session) \<Rightarrow>
                  (Normal, call (PcAddIceCandidate (pc session) candidate) w)))
      else if ev_type event \<noteq> TOffer then (Normal, w)
      else
        (case asSessionDescription (ev_payload event) of
           None \<Rightarrow> (Normal, emitSystem env (ev_from event) (ev_roomId event) ''invalid_offer_payload'' w)
         | Some (t, sdp) \<Rightarrow>
             if t \<noteq> ''offer''
             then (Normal, emitSystem env (ev_from event) (ev_roomId event) ''invalid_offer_payload'' w)
             else
               let botPeer = (case ev_to event of None \<Rightarrow> BOT_PEER_PREFIX @ ''server'' | Some b \<Rightarrow> b)
               in (case createServerSession env (ev_roomId event) (ev_from event) botPeer w of
                     (Throws, _, w1) \<Rightarrow>
                       (Normal, emitSystem env (ev_from event) (ev_roomId event) ''wrtc_unavailable'' w1)
                   | (Normal, None, w1) \<Rightarrow> (Normal, w1)
                   | (Normal, Some sid, w1) \<Rightarrow>
                       (case answerOffer env event sid sdp w1 of
                          (Normal, w2) \<Rightarrow> (Normal, w2)
                        | (Throws, w2) \<Rightarrow>
                            closeSession env (ev_roomId event) (ev_from event)
                              (emitSystem env (ev_from event) (ev_roomId event)
                                 ''offer_handling_failed'' w2)))))"

definition to_set :: "SignalEvent \<Rightarrow> bool" where
  "to_set event = (case ev_to event of None \<Rightarrow> False | Some t \<Rightarrow> t \<noteq> [])"

definition relaySignal :: "env \<Rightarrow> SignalEvent \<Rightarrow> world \<Rightarrow> js_result \<times> world" where
  "relaySignal env event w0 =
     (let (r, w) =
            (if ev_type event = TBye
             then (case closeSession env (ev_roomId event) (ev_from event) w0 of
                     (Throws, w1) \<Rightarrow> (Throws, w1)
                   | (Normal, w1) \<Rightarrow>
                       if to_set event
                       then closeSession env (ev_roomId event) (the (ev_to event)) w1
                       else (Normal, w1))
             else (Normal, w0))
      in if r = Throws then (Throws, w)
         else if to_set event \<and> isServerBotPeer (the (ev_to event))
              then handleServerBotSignal env event w
         else if \<not> to_set event then (Normal, w)
         else (Normal, emit (the (ev_to event)) (ev_roomId event) event w))"

definition onIceCandidate :: "env \<Rightarrow> nat \<Rightarrow> string option \<Rightarrow> world \<Rightarrow> world" where
  "onIceCandidate env sid candidate w =
     (case sessions w sid of
        None \<Rightarrow> w
      | Some session \<Rightarrow>
          (case candidate of
             None \<Rightarrow> w
           | Some c \<Rightarrow>
               emit (userPeerId session) (roomId session)
                 \<lparr> ev_type = TCandidate, ev_from = botPeerId session,
                   ev_to = Some (userPeerId session), ev_roomId = roomId session,
                   ev_payload = CandidatePayload c, ev_at = isoNow env \<rparr> w))"

definition onConnectionStateChange :: "env \<Rightarrow> nat \<Rightarrow> string \<Rightarrow> world \<Rightarrow> js_result \<times> world" where
  "onConnectionStateChange env sid connectionState w =
     (case sessions w sid of
        None \<Rightarrow> (Normal, w)
      | Some session \<Rightarrow>
          if connectionState = ''failed'' \<or> connectionState = ''closed''
          then closeSession env (roomId session) (userPeerId session) w
          else if connectionState = ''disconnected''
          then (Normal, emitSystem env (userPeerId session) (roomId session)
                          ''connection_disconnected'' w)
          else (Normal, w))"

definition onTrack :: "env \<Rightarrow> nat \<Rightarrow> string \<Rightarrow> world \<Rightarrow> js_result \<times> world" where
  "onTrack env sid kind w =
     (case sessions w sid of
        None \<Rightarrow> (Normal, w)
      | Some session \<Rightarrow>
          if kind \<noteq> ''audio'' then (Normal, w)
          else
            let w1 = (case sink session of None \<Rightarrow> w | Some k \<Rightarrow> call (SinkStop k) w)
            in if (case sink session of None \<Rightarrow> False | Some k \<Rightarrow> throws env (SinkStop k))
               then (Throws, w1)
               else
                 let k = nextId w1;
                     w2 = call (NewAudioSink k) (w1\<lparr> nextId := Suc k \<rparr>)
                 in if throws env (NewAudioSink k) then (Throws, w2)
                    else (Normal, updSession sid (\<lambda>s. s\<lparr> sink := Some k \<rparr>) w2))"

definition onTrackEnded :: "env \<Rightarrow> nat \<Rightarrow> nat \<Rightarrow> world \<Rightarrow> js_result \<times> world" where
  "onTrackEnded env sid k w =
     (let w1 = call (SinkStop k) w
      in if throws env (SinkStop k) then (Throws, w1)
         else (Normal, updSession sid (\<lambda>s. if sink s = Some k then s\<lparr> sink := None \<rparr> else s) w1))"

section \<open>The server as a transition system\<close>

text \<open>
  Everything that makes the module run: a request of the HTTP surface, a callback of the
  WebRTC engine or of the timer, the settling of a promise. An exception that reaches the
  caller of a step is dropped with its result.
\<close>

datatype op =
    OpenStream env string string
  | CancelStream nat
  | Signal env SignalEvent
  | PostChat string ChatEntry
  | PcIceCandidate env nat "string option"
  | PcConnectionState env nat string
  | PcTrack env nat string
  | TrackEnded env nat nat
  | SinkData env nat AudioFrameLike
  | TimerTick env nat
  | DrainResume env nat nat
  | ToolingProbed env nat

fun apply_op :: "op \<Rightarrow> world \<Rightarrow> world" where
  "apply_op (OpenStream env peer room) w = openEventStream env peer room w"
| "apply_op (CancelStream controller) w = cancelEventStream controller w"
| "apply_op (Signal env event) w = snd (relaySignal env event w)"
| "apply_op (PostChat room entry) w = postChat room entry w"
| "apply_op (PcIceCandidate env sid candidate) w = onIceCandidate env sid candidate w"
| "apply_op (PcConnectionState env sid st) w = snd (onConnectionStateChange env sid st w)"
| "apply_op (PcTrack env sid kind) w = snd (onTrack env sid kind w)"
| "apply_op (TrackEnded env sid k) w = snd (onTrackEnded env sid k w)"
| "apply_op (SinkData env sid frame) w = handleInboundAudioFrame env sid frame w"
| "apply_op (TimerTick env sid) w = playbackTick env sid w"
| "apply_op (DrainResume env sid i) w = drainResume env sid i w"
| "apply_op (ToolingProbed env sid) w = verifyVoiceTooling env sid w"

definition run :: "op list \<Rightarrow> world \<Rightarrow> world" where
  "run ops w = fold apply_op ops w"

definition initial :: world where
  "initial = \<lparr> subscribers = Map.empty, streams = Map.empty, roomChat = Map.empty,
               serverSessions = Map.empty, sessions = Map.empty,
               pendingServerCandidates = Map.empty, wrtcLoadPromise = None,
               effects = [], nextId = 0 \<rparr>"

section \<open>State invariants\<close>

text \<open>
  What the claims say of every state the server can reach. \<open>sessOk\<close>: the turn queue
  holds at most three segments, and \<^verbatim>\<open>processingTurn\<close> is set exactly while one invocation
  of \<^verbatim>\<open>drainTurnQueue\<close> is suspended (never two). \<open>midOk\<close> is the state of a session
  while that invocation runs between two of its \<^verbatim>\<open>await\<close>s. \<open>pendingBounded\<close>: no
  pending-candidate buffer holds more than 80 candidates.
\<close>

definition sessOk :: "ServerCallSession \<Rightarrow> bool" where
  "sessOk s \<longleftrightarrow> length (turnQueue s) \<le> 3
               \<and> (processingTurn s \<longleftrightarrow> drainTasks s \<noteq> [])
               \<and> length (drainTasks s) \<le> 1"

definition midOk :: "ServerCallSession \<Rightarrow> bool" where
  "midOk s \<longleftrightarrow> length (turnQueue s) \<le> 3 \<and> processingTurn s \<and> drainTasks s = []"

definition okExcept :: "nat \<Rightarrow> (ServerCallSession \<Rightarrow> bool) \<Rightarrow> world \<Rightarrow> bool" where
  "okExcept sid Q w \<longleftrightarrow>
     (\<forall>sid' s. sessions w sid' = Some s \<longrightarrow> (if sid' = sid then Q s else sessOk s))"

definition allOk :: "world \<Rightarrow> bool" where
  "allOk w \<longleftrightarrow> (\<forall>sid s. sessions w sid = Some s \<longrightarrow> sessOk s)"

definition pendingBounded :: "world \<Rightarrow> bool" where
  "pendingBounded w \<longleftrightarrow>
     (\<forall>key queue. pendingServerCandidates w key = Some queue
        \<longrightarrow> length queue \<le> MAX_PENDING_SERVER_CANDIDATES)"

section \<open>A concrete environment\<close>

text \<open>
  An environment in which no engine call throws, the WebRTC runtime loads, and no
  collaborator answers; concrete inputs of the theory start from it.
\<close>

definition quietEnv :: env where
  "quietEnv =
     \<lparr> dateNow = 0, isoNow = ''1970-01-01T00:00:00.000Z'', newId = ''id'', throws = (\<lambda>_. False),
       fault = False, wrtcImportOk = True, uninit = (\<lambda>_. 0), sttLocal = (\<lambda>_. None),
       apiKey = None, sttModel = ''gpt-4o-mini-transcribe'', sttRemote = (\<lambda>_ _. None),
       llm = (\<lambda>_. LlmNetworkError), jarvisTts = (\<lambda>_. None), openAiTts = (\<lambda>_. None),
       ttsFormat = ''mp3'', ffmpeg = (\<lambda>_ _. None), sttReady = True, ttsReady = True,
       ffmpegReady = True, answerSdp = ''v=0'' \<rparr>"

definition signal :: "event_type \<Rightarrow> string \<Rightarrow> string \<Rightarrow> string \<Rightarrow> payload \<Rightarrow> SignalEvent" where
  "signal t sender receiver room p =
     \<lparr> ev_type = t, ev_from = sender, ev_to = Some receiver, ev_roomId = room, ev_payload = p,
       ev_at = ''1970-01-01T00:00:00.000Z'' \<rparr>"

definition offerFrom :: "string \<Rightarrow> string \<Rightarrow> SignalEvent" where
  "offerFrom user room =
     signal TOffer user ''friday-voice-bot-server'' room (DescriptionPayload ''offer'' ''v=0'')"

text \<open>A world that holds one fresh session, for user \<^verbatim>\<open>u\<close> in room \<^verbatim>\<open>r\<close>, as object 3.\<close>

definition oneSession :: world where
  "oneSession =
     initial\<lparr> sessions := [3 \<mapsto> newSession ''r'' ''u'' ''friday-voice-bot-server'' 0 1 2],
              serverSessions := [''r::u'' \<mapsto> 3], wrtcLoadPromise := Some True, nextId := 4 \<rparr>"

text \<open>
  Two frames at 8 kHz: a quarter of a second at half of full scale (RMS 0.5), and one sample
  of silence.
\<close>

definition loudFrame :: AudioFrameLike where
  "loudFrame = \<lparr> samples = replicate 2000 16384, sampleRate = 8000, channelCount = None \<rparr>"

definition quietFrame :: AudioFrameLike where
  "quietFrame = \<lparr> samples = [0], sampleRate = 8000, channelCount = None \<rparr>"

text \<open>
  The offer of user \<^verbatim>\<open>u\<close> in room \<^verbatim>\<open>r\<close>, a loud frame at time 0 and a quiet one at
  time 2000: the session (object 3) has finalised one utterance and its worker waits for
  the transcription.
\<close>

definition oneTurnInFlight :: "op list" where
  "oneTurnInFlight =
     [Signal quietEnv (offerFrom ''u'' ''r''), SinkData quietEnv 3 loudFrame,
      SinkData (quietEnv\<lparr> dateNow := 2000 \<rparr>) 3 quietFrame]"

section \<open>Which part of the world a function touches\<close>

lemma call_fields [simp]:
  "subscribers (call e w) = subscribers w" "streams (call e w) = streams w"
  "roomChat (call e w) = roomChat w" "serverSessions (call e w) = serverSessions w"
  "sessions (call e w) = sessions w"
  "pendingServerCandidates (call e w) = pendingServerCandidates w"
  "wrtcLoadPromise (call e w) = wrtcLoadPromise w" "nextId (call e w) = nextId w"
  "effects (call e w) = effects w @ [e]"
  by (simp_all add: call_def)

lemma updSession_fields [simp]:
  "subscribers (updSession sid f w) = subscribers w" "streams (updSession sid f w) = streams w"
  "roomChat (updSession sid f w) = roomChat w"
  "serverSessions (updSession sid f w) = serverSessions w"
  "pendingServerCandidates (updSession sid f w) = pendingServerCandidates w"
  "wrtcLoadPromise (updSession sid f w) = wrtcLoadPromise w"
  "nextId (updSession sid f w) = nextId w" "effects (updSession sid f w) = effects w"
  by (simp_all add: updSession_def split: option.splits)

lemma sessions_updSession [simp]:
  "sessions (updSession sid f w) sid' =
     (if sid' = sid then map_option f (sessions w sid) else sessions w sid')"
  by (simp add: updSession_def split: option.splits)

lemma stream_enqueue_fields [simp]:
  "subscribers (stream_enqueue c l w) = subscribers w"
  "roomChat (stream_enqueue c l w) = roomChat w"
  "serverSessions (stream_enqueue c l w) = serverSessions w"
  "sessions (stream_enqueue c l w) = sessions w"
  "pendingServerCandidates (stream_enqueue c l w) = pendingServerCandidates w"
  "wrtcLoadPromise (stream_enqueue c l w) = wrtcLoadPromise w"
  "nextId (stream_enqueue c l w) = nextId w" "effects (stream_enqueue c l w) = effects w"
  by (simp_all add: stream_enqueue_def split: option.splits)

lemma fold_stream_enqueue_fields [simp]:
  "subscribers (fold (\<lambda>c. stream_enqueue c l) cs w) = subscribers w"
  "roomChat (fold (\<lambda>c. stream_enqueue c l) cs w) = roomChat w"
  "serverSessions (fold (\<lambda>c. stream_enqueue c l) cs w) = serverSessions w"
  "sessions (fold (\<lambda>c. stream_enqueue c l) cs w) = sessions w"
  "pendingServerCandidates (fold (\<lambda>c. stream_enqueue c l) cs w) = pendingServerCandidates w"
  "wrtcLoadPromise (fold (\<lambda>c. stream_enqueue c l) cs w) = wrtcLoadPromise w"
  "nextId (fold (\<lambda>c. stream_enqueue c l) cs w) = nextId w"
  "effects (fold (\<lambda>c. stream_enqueue c l) cs w) = effects w"
  by (induction cs arbitrary: w; simp)+

lemma emit_fields [simp]:
  "subscribers (emit p r ev w) = subscribers w"
  "roomChat (emit p r ev w) = roomChat w"
  "serverSessions (emit p r ev w) = serverSessions w"
  "sessions (emit p r ev w) = sessions w"
  "pendingServerCandidates (emit p r ev w) = pendingServerCandidates w"
  "wrtcLoadPromise (emit p r ev w) = wrtcLoadPromise w"
  "nextId (emit p r ev w) = nextId w"
  "effects (emit p r ev w) = effects w @ [Emitted p r ev]"
  by (simp_all add: emit_def Let_def split: option.splits)

lemma emitSystem_fields [simp]:
  "subscribers (emitSystem env p r m w) = subscribers w"
  "roomChat (emitSystem env p r m w) = roomChat w"
  "serverSessions (emitSystem env p r m w) = serverSessions w"
  "sessions (emitSystem env p r m w) = sessions w"
  "pendingServerCandidates (emitSystem env p r m w) = pendingServerCandidates w"
  "wrtcLoadPromise (emitSystem env p r m w) = wrtcLoadPromise w"
  "nextId (emitSystem env p r m w) = nextId w"
  by (simp_all add: emitSystem_def)

lemma postChat_fields [simp]:
  "subscribers (postChat r e w) = subscribers w" "streams (postChat r e w) = streams w"
  "serverSessions (postChat r e w) = serverSessions w"
  "sessions (postChat r e w) = sessions w"
  "pendingServerCandidates (postChat r e w) = pendingServerCandidates w"
  "wrtcLoadPromise (postChat r e w) = wrtcLoadPromise w"
  "nextId (postChat r e w) = nextId w" "effects (postChat r e w) = effects w"
  "roomChat (postChat r e w) = addChatEntry r e (roomChat w)"
  by (simp_all add: postChat_def)

lemma stopPlaybackTimer_fields [simp]:
  "subscribers (stopPlaybackTimer sid w) = subscribers w"
  "streams (stopPlaybackTimer sid w) = streams w"
  "roomChat (stopPlaybackTimer sid w) = roomChat w"
  "serverSessions (stopPlaybackTimer sid w) = serverSessions w"
  "pendingServerCandidates (stopPlaybackTimer sid w) = pendingServerCandidates w"
  "wrtcLoadPromise (stopPlaybackTimer sid w) = wrtcLoadPromise w"
  "nextId (stopPlaybackTimer sid w) = nextId w"
  by (simp_all add: stopPlaybackTimer_def split: option.splits)

lemma sessions_stopPlaybackTimer [simp]:
  "sessions (stopPlaybackTimer sid w) sid' =
     (if sid' = sid then map_option (\<lambda>s. s\<lparr> playbackTimer := None \<rparr>) (sessions w sid)
      else sessions w sid')"
  by (auto simp add: stopPlaybackTimer_def split: option.splits)

lemma sessions_run_calls [simp]: "sessions (snd (run_calls env cs w)) = sessions w"
  by (induction cs arbitrary: w) simp_all

lemma sessions_loadWrtc [simp]: "sessions (snd (loadWrtc env w)) = sessions w"
  by (simp add: loadWrtc_def split: option.splits)

lemma sessions_addQueuedCandidates [simp]:
  "sessions (addQueuedCandidates pcId queued w) = sessions w"
  unfolding addQueuedCandidates_def by (induction queued arbitrary: w) simp_all

lemma sessions_streams [simp]:
  "sessions (openEventStream env p r w) = sessions w"
  "sessions (cancelEventStream c w) = sessions w"
  by (simp_all add: openEventStream_def cancelEventStream_def Let_def split: option.splits)

section \<open>Unfolding the model on concrete inputs\<close>

lemmas eval_defs =
  relaySignal_def offerFrom_def signal_def to_set_def isServerBotPeer_def BOT_PEER_PREFIX_def
  handleServerBotSignal_def asSessionDescription_def asIceCandidate_def createServerSession_def
  closeSession_def getServerSession_def initial_def loadWrtc_def quietEnv_def roomPeerKey_def
  Let_def answerOffer_def newVad_def subscriberKey_def openEventStream_def emitSystem_def
  emit_def stream_enqueue_def call_def updSession_def push_capped_def
  MAX_PENDING_SERVER_CANDIDATES_def newSession_def oneSession_def

lemma meanSquare_loud: "meanSquare (replicate 2000 16384) = 1 / 4"
  by (simp add: meanSquare_def sum_list_replicate)

lemma meanSquare_quiet: "meanSquare [0] = 0"
  by (simp add: meanSquare_def)

lemmas frame_defs =
  handleInboundAudioFrame_def maybeFinalizeUtterance_def downmixToMono_def rmsAtLeast_def
  VAD_START_RMS_def VAD_HOLD_RMS_def pushVadFrame_def PRE_ROLL_FRAMES_def utteranceMsOf_def
  TURN_MAX_MS_def TURN_MIN_MS_def TURN_SILENCE_MS_def resetVad_def concatInt16_def
  enqueueTurn_def drainTurnQueue_def drainLoop_def drainFinally_def drainResume_def
  remove_nth_def run_def meanSquare_loud meanSquare_quiet loudFrame_def quietFrame_def
  oneTurnInFlight_def

section \<open>The pending-candidate buffer is touched by the session manager only\<close>

lemma pending_drain [simp]:
  "pendingServerCandidates (drainFinally sid w) = pendingServerCandidates w"
  "pendingServerCandidates (drainLoop sid w) = pendingServerCandidates w"
  "pendingServerCandidates (drainTurnQueue sid w) = pendingServerCandidates w"
  "pendingServerCandidates (enqueueTurn sid turn w) = pendingServerCandidates w"
  by (simp_all add: drainFinally_def drainLoop_def drainTurnQueue_def enqueueTurn_def
      split: option.splits list.splits)

lemma pending_playback [simp]:
  "pendingServerCandidates (startPlaybackLoop sid w) = pendingServerCandidates w"
  "pendingServerCandidates (enqueueAssistantAudio sid p w) = pendingServerCandidates w"
  "pendingServerCandidates (playbackTick env sid w) = pendingServerCandidates w"
  by (simp_all add: startPlaybackLoop_def enqueueAssistantAudio_def playbackTick_def Let_def
      split: option.splits list.splits)

lemma pending_maybeFinalizeUtterance [simp]:
  "pendingServerCandidates (maybeFinalizeUtterance env sid now w) = pendingServerCandidates w"
  by (simp add: maybeFinalizeUtterance_def Let_def split: option.split)

lemma handleInboundAudioFrame_shape:
  "\<exists>v. handleInboundAudioFrame env sid frame w = w
     \<or> handleInboundAudioFrame env sid frame w = updSession sid (\<lambda>s. s\<lparr> vad := v \<rparr>) w
     \<or> handleInboundAudioFrame env sid frame w =
         maybeFinalizeUtterance env sid (dateNow env) (updSession sid (\<lambda>s. s\<lparr> vad := v \<rparr>) w)"
proof (cases "sampleRate frame < 8000 \<or> sampleRate frame > 96000")
  case True
  then show ?thesis by (simp add: handleInboundAudioFrame_def)
next
  case False
  show ?thesis
  proof (cases "sessions w sid")
    case None
    with False show ?thesis by (simp add: handleInboundAudioFrame_def)
  next
    case (Some s)
    show ?thesis
      unfolding handleInboundAudioFrame_def Let_def
      using False Some
      by (simp only: if_False option.case simp_thms split: if_split) blast
  qed
qed

lemma pending_handleInboundAudioFrame [simp]:
  "pendingServerCandidates (handleInboundAudioFrame env sid frame w) = pendingServerCandidates w"
  using handleInboundAudioFrame_shape [of env sid frame w] by (elim exE disjE) simp_all

lemma pending_drainEmitAssistant [simp]:
  "pendingServerCandidates (drainEmitAssistant env sid u r w) = pendingServerCandidates w"
  by (simp add: drainEmitAssistant_def split: option.splits)

lemma pending_drainResume [simp]:
  "pendingServerCandidates (drainResume env sid i w) = pendingServerCandidates w"
  by (simp add: drainResume_def Let_def
      split: option.splits drain_await.splits awaited.splits)

lemma pending_streams [simp]:
  "pendingServerCandidates (openEventStream env p r w) = pendingServerCandidates w"
  "pendingServerCandidates (cancelEventStream c w) = pendingServerCandidates w"
  by (simp_all add: openEventStream_def cancelEventStream_def Let_def split: option.splits)

lemma pending_callbacks [simp]:
  "pendingServerCandidates (verifyVoiceTooling env sid w) = pendingServerCandidates w"
  "pendingServerCandidates (onIceCandidate env sid c w) = pendingServerCandidates w"
  "pendingServerCandidates (snd (onTrack env sid kind w)) = pendingServerCandidates w"
  "pendingServerCandidates (snd (onTrackEnded env sid k w)) = pendingServerCandidates w"
  by (simp_all add: verifyVoiceTooling_def onIceCandidate_def onTrack_def onTrackEnded_def Let_def
      split: option.splits)

lemma pending_run_calls [simp]:
  "pendingServerCandidates (snd (run_calls env cs w)) = pendingServerCandidates w"
  by (induction cs arbitrary: w) simp_all

lemma pending_loadWrtc [simp]:
  "pendingServerCandidates (snd (loadWrtc env w)) = pendingServerCandidates w"
  by (simp add: loadWrtc_def split: option.splits)

lemma pending_addQueuedCandidates [simp]:
  "pendingServerCandidates (addQueuedCandidates pcId queued w) = pendingServerCandidates w"
  unfolding addQueuedCandidates_def by (induction queued arbitrary: w) simp_all

section \<open>Chat log: bound and order\<close>

lemma slice_last_length: "length (slice_last n xs) = min n (length xs)"
  by (simp add: slice_last_def)

lemma slice_last_absorb: "slice_last n (slice_last n xs @ ys) = slice_last n (xs @ ys)"
proof (cases "length xs \<le> n")
  case True
  then show ?thesis by (simp add: slice_last_def)
next
  case False
  then have "length xs + length ys - (length xs - n + n) + (length xs - n)
             = length xs + length ys - n"
    by simp
  with False show ?thesis by (simp add: slice_last_def)
qed

lemma getChatHistory_add_same:
  "getChatHistory (addChatEntry r e rc) r = slice_last MAX_CHAT_HISTORY (getChatHistory rc r @ [e])"
  by (simp add: getChatHistory_def addChatEntry_def Let_def)

lemma getChatHistory_add_other:
  "r' \<noteq> r \<Longrightarrow> getChatHistory (addChatEntry r' e rc) r = getChatHistory rc r"
  by (simp add: getChatHistory_def addChatEntry_def Let_def)

lemma getChatHistory_addChatEntries:
  "length (getChatHistory rc r) \<le> MAX_CHAT_HISTORY \<Longrightarrow>
   getChatHistory (addChatEntries calls rc) r =
     slice_last MAX_CHAT_HISTORY (getChatHistory rc r @ entriesFor r calls)"
proof (induction calls arbitrary: rc)
  case Nil
  then show ?case by (simp add: entriesFor_def slice_last_def)
next
  case (Cons c calls)
  obtain r' e where c: "c = (r', e)" by (cases c)
  show ?case
  proof (cases "r' = r")
    case True
    have len: "length (getChatHistory (addChatEntry r e rc) r) \<le> MAX_CHAT_HISTORY"
      by (simp add: getChatHistory_add_same slice_last_length)
    have "slice_last MAX_CHAT_HISTORY
            (slice_last MAX_CHAT_HISTORY (getChatHistory rc r @ [e]) @ entriesFor r calls)
          = slice_last MAX_CHAT_HISTORY ((getChatHistory rc r @ [e]) @ entriesFor r calls)"
      by (rule slice_last_absorb)
    then show ?thesis
      using True c Cons.IH [OF len]
      by (simp add: getChatHistory_add_same entriesFor_def)
  next
    case False
    then have "length (getChatHistory (addChatEntry r' e rc) r) \<le> MAX_CHAT_HISTORY"
      using Cons.prems by (simp add: getChatHistory_add_other)
    then show ?thesis
      using False c Cons.IH [of "addChatEntry r' e rc"]
      by (simp add: getChatHistory_add_other entriesFor_def)
  qed
qed

text \<open>
  Claim C6. Starting from the empty chat table, after any sequence of
  \<^verbatim>\<open>addChatEntry\<close> calls the history that \<^verbatim>\<open>getChatHistory\<close> returns for a room
  has at most 250 entries, is a suffix of the entries added to that room in call order
  (so their order is kept), and is exactly the most recent 250 of them once more than
  250 have been added (all of them otherwise).
\<close>

theorem chat_history_bounded_fifo:
  "length (getChatHistory (addChatEntries calls Map.empty) r) \<le> 250
   \<and> suffix (getChatHistory (addChatEntries calls Map.empty) r) (entriesFor r calls)
   \<and> getChatHistory (addChatEntries calls Map.empty) r =
       (if length (entriesFor r calls) > 250
        then drop (length (entriesFor r calls) - 250) (entriesFor r calls)
        else entriesFor r calls)"
proof -
  have h: "getChatHistory (addChatEntries calls Map.empty) r =
             slice_last MAX_CHAT_HISTORY (entriesFor r calls)"
  proof -
    have "length (getChatHistory Map.empty r) \<le> MAX_CHAT_HISTORY"
      by (simp add: getChatHistory_def)
    from getChatHistory_addChatEntries [OF this, of calls]
    show ?thesis by (simp add: getChatHistory_def)
  qed
  show ?thesis
    unfolding h
    by (simp add: slice_last_def MAX_CHAT_HISTORY_def suffix_drop)
qed

section \<open>WAV packaging: round trip\<close>

lemma bytes4_nat:
  "(v::nat) mod 256 + (256 * (v div 256 mod 256) +
     (65536 * (v div 65536 mod 256) + 16777216 * (v div 16777216))) = v"
proof -
  define q1 where "q1 = v div 256"
  define q2 where "q2 = q1 div 256"
  define q3 where "q3 = q2 div 256"
  have a: "v div 65536 = q2" by (simp add: q1_def q2_def div_mult2_eq)
  have b: "v div 16777216 = q3" by (simp add: q1_def q2_def q3_def div_mult2_eq)
  have 1: "v = v mod 256 + 256 * q1" by (simp add: q1_def)
  have 2: "q1 = q1 mod 256 + 256 * q2" by (simp add: q2_def)
  have 3: "q2 = q2 mod 256 + 256 * q3" by (simp add: q3_def)
  show ?thesis
    unfolding a b q1_def [symmetric]
    using 1 2 3 by linarith
qed

lemma le_nat_u32le: "v < 4294967296 \<Longrightarrow> le_nat (u32le v) = v"
  by (simp add: le_nat_def u32le_def unat_of_nat bytes4_nat)

lemma le_nat_u16le: "v < 65536 \<Longrightarrow> le_nat (u16le v) = v"
  by (simp add: le_nat_def u16le_def unat_of_nat) 

lemma i16_rt: "i16_of (ucast s) (ucast (drop_bit 8 s)) = (s::int16)"
  unfolding i16_of_def
  apply (rule bit_word_eqI)
  apply (auto simp add: bit_simps)
  done


lemma put_append:
  "length pre = off \<Longrightarrow> length bs \<le> length rest \<Longrightarrow>
   put (pre @ rest) off bs = pre @ bs @ drop (length bs) rest"
proof (induction bs arbitrary: pre rest off)
  case Nil
  then show ?case by simp
next
  case (Cons b bs)
  then obtain r rest' where r: "rest = r # rest'" by (cases rest) auto
  have "put ((pre @ [b]) @ rest') (Suc off) bs = (pre @ [b]) @ bs @ drop (length bs) rest'"
    using Cons.prems r by (intro Cons.IH) auto
  then show ?case using Cons.prems r by (simp add: list_update_append)
qed

lemma put_take_drop:
  assumes "off + length bs \<le> length buf"
  shows "put buf off bs = take off buf @ bs @ drop (off + length bs) buf"
proof -
  have "put (take off buf @ drop off buf) off bs
        = take off buf @ bs @ drop (length bs) (drop off buf)"
    using assms by (intro put_append) auto
  then show ?thesis by (simp add: add.commute)
qed

lemma length_put: "length (put buf off bs) = length buf"
  by (induction bs arbitrary: buf off) simp_all

lemma length_fields:
  "length (ascii s) = length s" "length (u32le v) = 4" "length (u16le v) = 2"
  "length (i16le x) = 2" "length (allocUnsafe mem n) = n"
  by (simp_all add: ascii_def u32le_def u16le_def i16le_def allocUnsafe_def)

lemma setSamples_append:
  "length pre = off \<Longrightarrow> length rest = 2 * length ss \<Longrightarrow>
   setSamples (pre @ rest) off ss = pre @ concat (map i16le ss)"
proof (induction ss arbitrary: pre rest off)
  case Nil
  then show ?case by simp
next
  case (Cons s ss)
  have l: "length (i16le s) = 2" by (simp add: i16le_def)
  have "put (pre @ rest) off (i16le s) = pre @ i16le s @ drop 2 rest"
    using Cons.prems put_append [of pre off "i16le s" rest] by (simp add: l)
  moreover have "setSamples ((pre @ i16le s) @ drop 2 rest) (off + 2) ss
                 = (pre @ i16le s) @ concat (map i16le ss)"
    using Cons.prems by (intro Cons.IH) (auto simp: l)
  ultimately show ?case by simp
qed

lemma setSamples_take:
  assumes "length out = off + 2 * length ss"
  shows "setSamples out off ss = take off out @ concat (map i16le ss)"
proof -
  have "setSamples (take off out @ drop off out) off ss = take off out @ concat (map i16le ss)"
    using assms by (intro setSamples_append) auto
  then show ?thesis by simp
qed

lemma samples_of_i16le: "samples_of (concat (map i16le ss)) = ss"
  by (induction ss) (simp_all add: i16le_def i16_rt)

lemma length_wav_header: "length (wav_header n sr) = 44"
  by (simp add: wav_header_def ascii_def u32le_def u16le_def)

lemma createWav_eq:
  assumes "36 + length smp * 2 < 4294967296" and "rate * 2 < 4294967296"
  shows "createWavFromPcm16Mono mem smp rate =
           Some (wav_header (length smp * 2) rate @ concat (map i16le smp))"
  using assms
  by (simp add: createWavFromPcm16Mono_def Let_def writeUInt32LE_def writeUInt16LE_def
        buf_write_def put_take_drop length_fields setSamples_take wav_header_def)

lemma length_concat_i16le: "length (concat (map i16le ss)) = length ss * 2"
  by (induction ss) (simp_all add: i16le_def)

lemma parseWav_header:
  assumes "36 + n < 4294967296" and "sr * 2 < 4294967296" and "length body = n"
  shows "parseWav (wav_header n sr @ body) =
           Some \<lparr> wavFormat = 1, wavChannels = 1, wavSampleRate = sr, wavByteRate = sr * 2,
                   wavBlockAlign = 2, wavBitsPerSample = 16, wavSamples = samples_of body \<rparr>"
proof -
  have f: "le_nat (u32le (36 + n)) = 36 + n" "le_nat (u32le n) = n" "le_nat (u32le sr) = sr"
    "le_nat (u32le (sr * 2)) = sr * 2" "le_nat (u32le 16) = 16"
    "le_nat (u16le 1) = 1" "le_nat (u16le 2) = 2" "le_nat (u16le 16) = 16"
    "le_nat (u16le (Suc 0)) = Suc 0"
    using assms by (simp_all add: le_nat_u32le le_nat_u16le)
  have l: "length (ascii s) = length s" "length (u32le v) = 4" "length (u16le v) = 2" for s v
    by (simp_all add: ascii_def u32le_def u16le_def)
  show ?thesis
    using assms(3)
    by (simp add: parseWav_def bytes_at_def wav_header_def l f)
qed

text \<open>
  Claim C7. For a PCM-16 mono sample array and a sample rate whose sizes fit the 32-bit
  fields of the header (the RIFF size \<open>36 + 2n\<close> and the byte rate \<open>2 \<times> rate\<close>),
  \<^verbatim>\<open>createWavFromPcm16Mono\<close> returns, whatever the uninitialised buffer held, a buffer of
  \<open>44 + 2n\<close> bytes: the 44-byte little-endian RIFF/WAVE header (format PCM, one channel,
  the given sample rate, byte rate, block align 2, 16 bits per sample, data size \<open>2n\<close>)
  followed by the samples as little-endian byte pairs; and parsing that buffer gives back
  format 1, one channel, the sample rate, 16 bits and exactly the input samples.
\<close>

theorem wav_round_trip:
  assumes "36 + length smp * 2 < 4294967296" and "rate * 2 < 4294967296"
  shows "\<exists>wav. createWavFromPcm16Mono mem smp rate = Some wav
           \<and> length wav = 44 + length smp * 2
           \<and> take 44 wav = wav_header (length smp * 2) rate
           \<and> drop 44 wav = concat (map i16le smp)
           \<and> parseWav wav =
               Some \<lparr> wavFormat = 1, wavChannels = 1, wavSampleRate = rate,
                       wavByteRate = rate * 2, wavBlockAlign = 2, wavBitsPerSample = 16,
                       wavSamples = smp \<rparr>"
proof -
  let ?wav = "wav_header (length smp * 2) rate @ concat (map i16le smp)"
  have "createWavFromPcm16Mono mem smp rate = Some ?wav"
    using assms by (rule createWav_eq)
  moreover have "length ?wav = 44 + length smp * 2"
    by (simp add: length_wav_header length_concat_i16le)
  moreover have "take 44 ?wav = wav_header (length smp * 2) rate"
    by (simp add: length_wav_header)
  moreover have "drop 44 ?wav = concat (map i16le smp)"
    by (simp add: length_wav_header)
  moreover have "parseWav ?wav =
               Some \<lparr> wavFormat = 1, wavChannels = 1, wavSampleRate = rate,
                       wavByteRate = rate * 2, wavBlockAlign = 2, wavBitsPerSample = 16,
                       wavSamples = smp \<rparr>"
    using parseWav_header [OF assms length_concat_i16le]
    by (simp add: samples_of_i16le)
  ultimately show ?thesis by blast
qed

theorem wav_round_trip_witness:
  "\<exists>wav. createWavFromPcm16Mono (\<lambda>_. 255) [1, -2, 32767] 16000 = Some wav
     \<and> length wav = 50 \<and> parseWav wav =
               Some \<lparr> wavFormat = 1, wavChannels = 1, wavSampleRate = 16000,
                       wavByteRate = 32000, wavBlockAlign = 2, wavBitsPerSample = 16,
                       wavSamples = [1, -2, 32767] \<rparr>"
  using wav_round_trip [of "[1, -2, 32767]" 16000 "\<lambda>_. 255"] by auto

section \<open>Closing a session\<close>

lemma closeSession_absent:
  "getServerSession w room peer = None \<Longrightarrow> closeSession env room peer w = (Normal, w)"
  by (simp add: closeSession_def)

lemma closeSession_forgets:
  "getServerSession (snd (closeSession env room peer w)) room peer = None"
proof (cases "getServerSession w room peer")
  case None
  then show ?thesis by (simp add: closeSession_absent)
next
  case (Some a)
  then show ?thesis
    by (cases a) (simp add: closeSession_def getServerSession_def Let_def split: option.splits)
qed

text \<open>
  Claim C8. \<^verbatim>\<open>closeSession\<close> is idempotent: a second call for the same
  \<^verbatim>\<open>(roomId, userPeerId)\<close>, whatever the engine does meanwhile, returns normally and
  leaves the whole world (session table, pending candidates, every session object, the
  record of engine calls) as the first call left it; and a call for which the table has
  no session changes nothing.
\<close>

theorem closeSession_idempotent:
  "closeSession env' room peer (snd (closeSession env room peer w))
     = (Normal, snd (closeSession env room peer w))
   \<and> (getServerSession w room peer = None \<longrightarrow> closeSession env room peer w = (Normal, w))"
  by (simp add: closeSession_absent closeSession_forgets)

theorem closeSession_idempotent_witness:
  "getServerSession (snd (relaySignal quietEnv (offerFrom ''u'' ''r'') initial)) ''r'' ''u'' \<noteq> None
   \<and> closeSession quietEnv ''r'' ''u''
         (snd (closeSession quietEnv ''r'' ''u''
            (snd (relaySignal quietEnv (offerFrom ''u'' ''r'') initial))))
       = (Normal, snd (closeSession quietEnv ''r'' ''u''
            (snd (relaySignal quietEnv (offerFrom ''u'' ''r'') initial))))
   \<and> getServerSession initial ''r'' ''u'' = None
   \<and> closeSession quietEnv ''r'' ''u'' initial = (Normal, initial)"
proof -
  let ?w = "snd (relaySignal quietEnv (offerFrom ''u'' ''r'') initial)"
  have a: "getServerSession ?w ''r'' ''u'' \<noteq> None"
    by (simp add: eval_defs)
  have b: "getServerSession initial ''r'' ''u'' = None"
    by (simp add: getServerSession_def initial_def)
  from closeSession_idempotent [of quietEnv "''r''" "''u''" quietEnv ?w]
       closeSession_idempotent [of quietEnv "''r''" "''u''" quietEnv initial] a b
  show ?thesis by blast
qed

section \<open>Reply synthesis when the language model fails\<close>

lemma requestLlmReply_Rejected:
  "requestLlmReply env input = Rejected \<longleftrightarrow> (\<forall>t. llm env input \<noteq> LlmOk t)"
  by (cases "llm env input") (simp_all add: requestLlmReply_def Let_def)

text \<open>
  Claim C9. When the call of the language model fails (network error, timeout, an HTTP
  status that is not ok, a body that cannot be read), \<^verbatim>\<open>synthesizeAssistantReply\<close> returns
  normally with the reply text \<^verbatim>\<open>Comms degraded. Retry in a moment.\<close>, and the audio it
  returns is what the speech synthesis chain (the local binary first, the remote service
  after it) produces for exactly that text.
\<close>

theorem llm_failure_fallback:
  assumes "llm env input = LlmNetworkError \<or> llm env input = LlmTimeout
           \<or> llm env input = LlmBadBody \<or> (\<exists>status. llm env input = LlmHttpError status)"
  shows "replyText (synthesizeAssistantReply env input) = ''Comms degraded. Retry in a moment.''
         \<and> audioBuffer (synthesizeAssistantReply env input) =
             (case tryJarvisTtsBuffer env ''Comms degraded. Retry in a moment.'' of
                Some buffer \<Rightarrow> Some buffer
              | None \<Rightarrow> map_option fst
                          (tryOpenAiTtsBuffer env ''Comms degraded. Retry in a moment.''))
         \<and> audioFormat (synthesizeAssistantReply env input) =
             (case tryJarvisTtsBuffer env ''Comms degraded. Retry in a moment.'' of
                Some buffer \<Rightarrow> ''ogg''
              | None \<Rightarrow>
                  (case tryOpenAiTtsBuffer env ''Comms degraded. Retry in a moment.'' of
                     Some r \<Rightarrow> snd r
                   | None \<Rightarrow> ''ogg''))
         \<and> audioBase64 (synthesizeAssistantReply env input) =
             map_option base64 (audioBuffer (synthesizeAssistantReply env input))"
proof -
  have "requestLlmReply env input = Rejected"
    using assms by (auto simp add: requestLlmReply_Rejected)
  then show ?thesis
    by (simp add: synthesizeAssistantReply_def Let_def split: option.splits)
qed

theorem llm_failure_fallback_witness:
  "llm (quietEnv\<lparr> jarvisTts := (\<lambda>t. if t = ''Comms degraded. Retry in a moment.''
                                     then Some [79, 103, 103] else None) \<rparr>) ''status?''
     = LlmNetworkError
   \<and> replyText (synthesizeAssistantReply
        (quietEnv\<lparr> jarvisTts := (\<lambda>t. if t = ''Comms degraded. Retry in a moment.''
                                     then Some [79, 103, 103] else None) \<rparr>) ''status?'')
     = ''Comms degraded. Retry in a moment.''
   \<and> audioBuffer (synthesizeAssistantReply
        (quietEnv\<lparr> jarvisTts := (\<lambda>t. if t = ''Comms degraded. Retry in a moment.''
                                     then Some [79, 103, 103] else None) \<rparr>) ''status?'')
     = Some [79, 103, 103]"
proof -
  let ?env = "quietEnv\<lparr> jarvisTts := (\<lambda>t. if t = ''Comms degraded. Retry in a moment.''
                                     then Some [79, 103, 103] else None) \<rparr>"
  have a: "llm ?env ''status?'' = LlmNetworkError"
    by (simp add: quietEnv_def)
  have b: "tryJarvisTtsBuffer ?env ''Comms degraded. Retry in a moment.'' = Some [79, 103, 103]"
    by (simp add: tryJarvisTtsBuffer_def)
  from llm_failure_fallback [of ?env "''status?''"] a b
  show ?thesis by simp
qed

section \<open>Relay: which subscribers receive an event\<close>

text \<open>
  Claim C4, at the input where the code departs from it. A subscriber opens its stream
  as peer \<^verbatim>\<open>b::c\<close> in room \<^verbatim>\<open>a\<close>; a candidate event for peer \<^verbatim>\<open>c\<close> in room \<^verbatim>\<open>a::b\<close> is
  relayed. Both pairs have the subscriber key \<^verbatim>\<open>a::b::c\<close>, and the event is enqueued to
  that subscriber, which is registered under another room and another peer.
\<close>

theorem relay_key_collision:
  "subscriberKey ''b::c'' ''a'' = subscriberKey ''c'' ''a::b''
   \<and> map_option (\<lambda>c. (st_roomId c, st_peerId c))
        (streams (openEventStream quietEnv ''b::c'' ''a'' initial) 0) = Some (''a'', ''b::c'')
   \<and> map_option (\<lambda>c. last (st_queue c))
        (streams (snd (relaySignal quietEnv
                         (signal TCandidate ''x'' ''c'' ''a::b'' (CandidatePayload ''candidate:1''))
                         (openEventStream quietEnv ''b::c'' ''a'' initial))) 0)
       = Some (DataLine (signal TCandidate ''x'' ''c'' ''a::b'' (CandidatePayload ''candidate:1'')))"
  by (simp add: eval_defs)

section \<open>Turn segmentation: when an utterance is finalised\<close>

lemma vad_drainFinally:
  "map_option vad (sessions (drainFinally sid w) sid') = map_option vad (sessions w sid')"
  by (simp add: drainFinally_def option.map_comp comp_def)

lemma vad_drainLoop:
  "map_option vad (sessions (drainLoop sid w) sid') = map_option vad (sessions w sid')"
  by (simp add: drainLoop_def vad_drainFinally option.map_comp comp_def
      split: option.splits list.splits)

lemma vad_drainTurnQueue:
  "map_option vad (sessions (drainTurnQueue sid w) sid') = map_option vad (sessions w sid')"
  by (simp add: drainTurnQueue_def vad_drainLoop option.map_comp comp_def split: option.splits)

lemma vad_enqueueTurn:
  "map_option vad (sessions (enqueueTurn sid turn w) sid') = map_option vad (sessions w sid')"
  by (simp add: enqueueTurn_def vad_drainTurnQueue option.map_comp comp_def)

text \<open>
  Claim C1. Take a session that is in speech, with a recorded utterance sample rate and
  at least one utterance sample, and let \<open>ms = utteranceSamples / utteranceSampleRate \<times> 1000\<close>.
  On a frame at time \<open>now\<close>, \<^verbatim>\<open>maybeFinalizeUtterance\<close> finalises (the session leaves
  speech) if and only if \<open>ms \<ge> 18000\<close>, or \<open>now - lastVoiceAt \<ge> 2000\<close> and \<open>ms \<ge> 500\<close>;
  otherwise it changes nothing. When it finalises, the VAD state is reset (the pre-roll
  ring stays), and the segment made of the concatenated frames and the utterance sample
  rate is handed to \<^verbatim>\<open>enqueueTurn\<close>, after \<^verbatim>\<open>voice_turn_detected\<close> is emitted to the user
  peer, exactly when the concatenation is not empty and \<open>ms \<ge> 500\<close>; otherwise the reset
  is all that happens.
\<close>

theorem finalize_utterance_iff:
  assumes "sessions w sid = Some s" and "inSpeech (vad s)"
    and "utteranceSampleRate (vad s) \<noteq> 0" and "utteranceSamples (vad s) \<noteq> 0"
  shows
    "let ms = (of_nat (utteranceSamples (vad s)) / of_nat (utteranceSampleRate (vad s))) * 1000 :: rat;
         finalise = (18000 \<le> ms \<or> (2000 \<le> now - lastVoiceAt (vad s) \<and> 500 \<le> ms));
         buffer = concat (utteranceFrames (vad s));
         reset = updSession sid (\<lambda>x. x\<lparr> vad := resetVad (vad x) \<rparr>) w;
         w' = maybeFinalizeUtterance env sid now w
     in map_option (\<lambda>x. inSpeech (vad x)) (sessions w' sid) = Some (\<not> finalise)
        \<and> (if \<not> finalise then w' = w
           else map_option vad (sessions w' sid) = Some (resetVad (vad s))
                \<and> (if buffer \<noteq> [] \<and> 500 \<le> ms
                    then w' = enqueueTurn sid
                                \<lparr> samples = buffer, sampleRate = utteranceSampleRate (vad s) \<rparr>
                                (emitSystem env (userPeerId s) (roomId s) ''voice_turn_detected'' reset)
                    else w' = reset))"
proof -
  define ms :: rat where "ms = utteranceMsOf (vad s)"
  define fin where "fin \<longleftrightarrow> 18000 \<le> ms \<or> (2000 \<le> now - lastVoiceAt (vad s) \<and> 500 \<le> ms)"
  define buffer where "buffer = concat (utteranceFrames (vad s))"
  define reset where "reset = updSession sid (\<lambda>x. x\<lparr> vad := resetVad (vad x) \<rparr>) w"
  define queued where "queued = enqueueTurn sid
      \<lparr> samples = buffer, sampleRate = utteranceSampleRate (vad s) \<rparr>
      (emitSystem env (userPeerId s) (roomId s) ''voice_turn_detected'' reset)"
  have ms_eq: "(of_nat (utteranceSamples (vad s)) / of_nat (utteranceSampleRate (vad s))) * 1000 = ms"
    by (simp only: ms_def utteranceMsOf_def)
  have sil: "(of_int (now - lastVoiceAt (vad s)) :: rat) < 2000 \<longleftrightarrow> now - lastVoiceAt (vad s) < 2000"
    by (metis of_int_less_iff of_int_numeral)
  have guard: "(ms < TURN_MAX_MS \<and> (of_int (now - lastVoiceAt (vad s)) < TURN_SILENCE_MS \<or> ms < TURN_MIN_MS))
               \<longleftrightarrow> \<not> fin"
    unfolding TURN_MAX_MS_def TURN_SILENCE_MS_def TURN_MIN_MS_def sil fin_def by auto
  have small: "ms < TURN_MIN_MS \<longleftrightarrow> \<not> 500 \<le> ms"
    unfolding TURN_MIN_MS_def by auto
  have run: "maybeFinalizeUtterance env sid now w =
               (if \<not> fin then w else if buffer \<noteq> [] \<and> 500 \<le> ms then queued else reset)"
    unfolding maybeFinalizeUtterance_def
    by (simp only: assms option.case Let_def ms_def [symmetric] guard small concatInt16_def
          buffer_def [symmetric] reset_def [symmetric] queued_def [symmetric]
          simp_thms if_True if_False de_Morgan_conj not_not if_not_P split: if_splits)
       (use guard small in auto)
  have r: "sessions reset sid = Some (s\<lparr> vad := resetVad (vad s) \<rparr>)"
    by (simp add: reset_def assms)
  have q: "map_option vad (sessions queued sid) = Some (resetVad (vad s))"
    unfolding queued_def by (simp add: vad_enqueueTurn r)
  have idle: "\<not> inSpeech (resetVad (vad s))"
    by (simp add: resetVad_def)
  have q_idle: "map_option (\<lambda>x. inSpeech (vad x)) (sessions queued sid) = Some False"
    using q idle by (cases "sessions queued sid") auto
  have "map_option (\<lambda>x. inSpeech (vad x)) (sessions (maybeFinalizeUtterance env sid now w) sid)
          = Some (\<not> fin)
        \<and> (if \<not> fin then maybeFinalizeUtterance env sid now w = w
           else map_option vad (sessions (maybeFinalizeUtterance env sid now w) sid)
                  = Some (resetVad (vad s))
                \<and> (if buffer \<noteq> [] \<and> 500 \<le> ms
                    then maybeFinalizeUtterance env sid now w = queued
                    else maybeFinalizeUtterance env sid now w = reset))"
    unfolding run using assms(1,2) r q q_idle idle by auto
  then show ?thesis
    unfolding Let_def ms_eq fin_def [symmetric] buffer_def [symmetric] reset_def [symmetric]
      queued_def [symmetric] .
qed

theorem finalize_utterance_iff_witness:
  "sessions (updSession 3 (\<lambda>x. x\<lparr> vad := newVad\<lparr> inSpeech := True, lastVoiceAt := 1000,
        utteranceSampleRate := 8000, utteranceSamples := 8000,
        utteranceFrames := [replicate 8000 1] \<rparr> \<rparr>) oneSession) 3
     = Some ((newSession ''r'' ''u'' ''friday-voice-bot-server'' 0 1 2)\<lparr> vad := newVad\<lparr> inSpeech := True,
        lastVoiceAt := 1000, utteranceSampleRate := 8000, utteranceSamples := 8000,
        utteranceFrames := [replicate 8000 1] \<rparr> \<rparr>)
   \<and> map_option (\<lambda>x. inSpeech (vad x))
        (sessions (maybeFinalizeUtterance quietEnv 3 3500
           (updSession 3 (\<lambda>x. x\<lparr> vad := newVad\<lparr> inSpeech := True, lastVoiceAt := 1000,
              utteranceSampleRate := 8000, utteranceSamples := 8000,
              utteranceFrames := [replicate 8000 1] \<rparr> \<rparr>) oneSession)) 3) = Some False
   \<and> map_option (\<lambda>x. inSpeech (vad x))
        (sessions (maybeFinalizeUtterance quietEnv 3 2500
           (updSession 3 (\<lambda>x. x\<lparr> vad := newVad\<lparr> inSpeech := True, lastVoiceAt := 1000,
              utteranceSampleRate := 8000, utteranceSamples := 8000,
              utteranceFrames := [replicate 8000 1] \<rparr> \<rparr>) oneSession)) 3) = Some True"
proof -
  let ?v = "newVad\<lparr> inSpeech := True, lastVoiceAt := 1000, utteranceSampleRate := 8000,
                   utteranceSamples := 8000, utteranceFrames := [replicate 8000 1] \<rparr>"
  let ?s = "(newSession ''r'' ''u'' ''friday-voice-bot-server'' 0 1 2)\<lparr> vad := ?v \<rparr>"
  let ?w = "updSession 3 (\<lambda>x. x\<lparr> vad := ?v \<rparr>) oneSession"
  have s: "sessions ?w 3 = Some ?s"
    by (simp add: oneSession_def initial_def)
  have v: "inSpeech (vad ?s)" "utteranceSampleRate (vad ?s) \<noteq> 0" "utteranceSamples (vad ?s) \<noteq> 0"
    by simp_all
  from finalize_utterance_iff [OF s v, of 3500 quietEnv, unfolded Let_def, THEN conjunct1]
  have late: "map_option (\<lambda>x. inSpeech (vad x)) (sessions (maybeFinalizeUtterance quietEnv 3 3500 ?w) 3)
                = Some False"
    by simp
  from finalize_utterance_iff [OF s v, of 2500 quietEnv, unfolded Let_def, THEN conjunct1]
  have early: "map_option (\<lambda>x. inSpeech (vad x)) (sessions (maybeFinalizeUtterance quietEnv 3 2500 ?w) 3)
                = Some True"
    by simp
  from s late early show ?thesis by blast
qed

section \<open>Playback pacer: one tick\<close>

lemma frameSize_480: "frameSize = 480"
proof -
  have "\<lfloor>961 / 2 :: rat\<rfloor> = 480"
    using floor_divide_of_int_eq [of 961 2, where ?'a = rat] by simp
  then show ?thesis
    by (simp add: frameSize_def js_round_def PLAYBACK_SAMPLE_RATE_def PLAYBACK_FRAME_MS_def)
qed

lemma playbackTick_exhausted:
  assumes "sessions w sid = Some s" and "playbackTimer s = Some t"
    and "playbackQueue s = current # rest" and "length (samples current) \<le> cursor current"
  shows "playbackTick env sid w = updSession sid (\<lambda>x. x\<lparr> playbackQueue := rest \<rparr>) w"
  using assms by (simp add: playbackTick_def)

lemma playbackTick_frame:
  assumes "sessions w sid = Some s" and "playbackTimer s = Some t"
    and "playbackQueue s = current # rest" and "cursor current < length (samples current)"
  shows "playbackTick env sid w =
           (let n = length (samples current);
                c = cursor current;
                frame = take 480 (drop c (samples current)) @ replicate (480 - (n - c)) 0;
                w1 = call (SourceOnData (source s) frame)
                       (updSession sid
                          (\<lambda>x. x\<lparr> playbackQueue := current\<lparr> cursor := min n (c + 480) \<rparr> # rest \<rparr>) w)
            in if throws env (SourceOnData (source s) frame)
               then stopPlaybackTimer sid (updSession sid (\<lambda>x. x\<lparr> playbackQueue := [] \<rparr>) w1)
               else w1)"
proof -
  let ?n = "length (samples current)" and ?c = "cursor current"
  have sub: "take (min ?n (?c + 480) - ?c) (drop ?c (samples current))
             = take 480 (drop ?c (samples current))"
    using assms(4) by (simp add: min_def)
  have len: "length (take 480 (drop ?c (samples current))) = min 480 (?n - ?c)"
    by (simp add: min.commute)
  have pad: "(if min 480 (?n - ?c) < 480
              then take 480 (drop ?c (samples current)) @ replicate (480 - min 480 (?n - ?c)) 0
              else take 480 (drop ?c (samples current)))
             = take 480 (drop ?c (samples current)) @ replicate (480 - (?n - ?c)) 0"
    by (simp add: min_def)
  have ng: "(?n \<le> ?c) = False"
    using assms(4) by simp
  show ?thesis
    by (simp only: playbackTick_def assms(1-3) option.case list.case Let_def frameSize_480 sub
          len pad ng option.distinct if_False simp_thms)
qed

lemma effects_stopPlaybackTimer:
  "effects (stopPlaybackTimer sid w) =
     effects w @ (case sessions w sid of
                    None \<Rightarrow> []
                  | Some s \<Rightarrow> (case playbackTimer s of None \<Rightarrow> [] | Some t \<Rightarrow> [ClearInterval t]))"
  by (simp add: stopPlaybackTimer_def split: option.splits)

text \<open>
  Claim C2, as the code has it. Take a session whose pacer timer runs and whose playback
  queue is not empty. On a tick where the head item still has samples to play
  (\<open>cursor < length\<close>) the pacer calls the audio source exactly once, with a frame of exactly
  480 samples: the next samples of the item, at most 480, followed by zeros up to 480; the
  cursor moves past them (when the source throws, the queue is emptied and the timer
  cleared instead). On a tick where the head item is used up (\<open>cursor \<ge> length\<close>) the
  pacer calls nothing and only removes that item.
\<close>

theorem playback_tick_frames:
  assumes "sessions w sid = Some s" and "playbackTimer s = Some t"
    and "playbackQueue s = current # rest"
  shows
    "let n = length (samples current);
         c = cursor current;
         frame = take 480 (drop c (samples current)) @ replicate (480 - (n - c)) 0;
         rejected = throws env (SourceOnData (source s) frame);
         w' = playbackTick env sid w
     in if c < n
        then length frame = 480
             \<and> effects w' = effects w @ SourceOnData (source s) frame
                               # (if rejected then [ClearInterval t] else [])
             \<and> map_option playbackQueue (sessions w' sid) =
                 Some (if rejected then [] else current\<lparr> cursor := min n (c + 480) \<rparr> # rest)
        else effects w' = effects w
             \<and> map_option playbackQueue (sessions w' sid) = Some rest"
proof (cases "cursor current < length (samples current)")
  case True
  have len: "length (take 480 (drop (cursor current) (samples current))
                     @ replicate (480 - (length (samples current) - cursor current)) 0) = 480"
    using True by (simp add: min_def)
  show ?thesis
    using True assms len
    by (simp add: playbackTick_frame [OF assms True] Let_def effects_stopPlaybackTimer)
next
  case False
  then have "length (samples current) \<le> cursor current" by simp
  from playbackTick_exhausted [OF assms this] False assms(1)
  show ?thesis by (simp add: Let_def)
qed

theorem playback_tick_frames_witness:
  "sessions (enqueueAssistantAudio 3 [7] oneSession) 3
     = Some ((newSession ''r'' ''u'' ''friday-voice-bot-server'' 0 1 2)
               \<lparr> playbackQueue := [\<lparr> samples = [7], sampleRate = 48000, cursor = 0 \<rparr>],
                 playbackTimer := Some 4 \<rparr>)
   \<and> effects (playbackTick quietEnv 3 (enqueueAssistantAudio 3 [7] oneSession))
       = [SetInterval 4, SourceOnData 1 (7 # replicate 479 0)]"
proof -
  let ?s = "(newSession ''r'' ''u'' ''friday-voice-bot-server'' 0 1 2)
               \<lparr> playbackQueue := [\<lparr> samples = [7], sampleRate = 48000, cursor = 0 \<rparr>],
                 playbackTimer := Some 4 \<rparr>"
  have s: "sessions (enqueueAssistantAudio 3 [7] oneSession) 3 = Some ?s"
    by (simp add: enqueueAssistantAudio_def startPlaybackLoop_def oneSession_def initial_def
        newSession_def PLAYBACK_SAMPLE_RATE_def)
  have e: "effects (enqueueAssistantAudio 3 [7] oneSession) = [SetInterval 4]"
    by (simp add: enqueueAssistantAudio_def startPlaybackLoop_def oneSession_def initial_def
        newSession_def)
  have t: "playbackTimer ?s = Some 4"
    and q: "playbackQueue ?s = [\<lparr> samples = [7], sampleRate = 48000, cursor = 0 \<rparr>]"
    by simp_all
  from playback_tick_frames [OF s t q, of quietEnv, unfolded Let_def] e
  have "effects (playbackTick quietEnv 3 (enqueueAssistantAudio 3 [7] oneSession))
          = [SetInterval 4, SourceOnData 1 (7 # replicate 479 0)]"
    by (simp add: quietEnv_def newSession_def)
  with s show ?thesis by blast
qed

text \<open>
  Claim C2 as stated fails. One sample is queued; the first tick plays it in one padded
  frame and leaves the item, now used up, in the queue. The queue is not empty and the
  timer runs, yet the second tick calls the audio source with nothing.
\<close>

theorem playback_tick_without_frame:
  "map_option playbackQueue
     (sessions (playbackTick quietEnv 3 (enqueueAssistantAudio 3 [7] oneSession)) 3)
     = Some [\<lparr> samples = [7], sampleRate = 48000, cursor = 1 \<rparr>]
   \<and> map_option playbackTimer
       (sessions (playbackTick quietEnv 3 (enqueueAssistantAudio 3 [7] oneSession)) 3)
     = Some (Some 4)
   \<and> effects (playbackTick quietEnv 3
               (playbackTick quietEnv 3 (enqueueAssistantAudio 3 [7] oneSession)))
     = effects (playbackTick quietEnv 3 (enqueueAssistantAudio 3 [7] oneSession))"
  by (simp add: playbackTick_def enqueueAssistantAudio_def startPlaybackLoop_def oneSession_def
      initial_def newSession_def PLAYBACK_SAMPLE_RATE_def frameSize_480 quietEnv_def Let_def)

section \<open>Invariants of the sessions\<close>

lemma sessOk_other_fields [simp]:
  "sessOk (vad_update f s) = sessOk s" "sessOk (sink_update g s) = sessOk s"
  "sessOk (playbackQueue_update h s) = sessOk s" "sessOk (playbackTimer_update k s) = sessOk s"
  "sessOk (lastTranscript_update l s) = sessOk s" "sessOk (lastTranscriptAt_update m s) = sessOk s"
  by (simp_all add: sessOk_def)

lemma midOk_other_fields [simp]:
  "midOk (vad_update f s) = midOk s" "midOk (sink_update g s) = midOk s"
  "midOk (playbackQueue_update h s) = midOk s" "midOk (playbackTimer_update k s) = midOk s"
  "midOk (lastTranscript_update l s) = midOk s" "midOk (lastTranscriptAt_update m s) = midOk s"
  by (simp_all add: midOk_def)

lemma allOk_okExcept: "allOk w = okExcept sid sessOk w"
  by (auto simp add: allOk_def okExcept_def)

lemma okExcept_sessions_eq: "sessions w' = sessions w \<Longrightarrow> okExcept sid Q w' = okExcept sid Q w"
  by (simp add: okExcept_def)

lemma allOk_sessions_eq: "sessions w' = sessions w \<Longrightarrow> allOk w' = allOk w"
  by (simp add: allOk_def)

lemma okExceptD:
  "okExcept sid Q w \<Longrightarrow> sessions w sid' = Some s \<Longrightarrow> (if sid' = sid then Q s else sessOk s)"
  unfolding okExcept_def by blast

lemma allOkD: "allOk w \<Longrightarrow> sessions w sid = Some s \<Longrightarrow> sessOk s"
  unfolding allOk_def by blast

lemma okExcept_updSession:
  assumes "okExcept sid Q w" and "\<And>s. Q s \<Longrightarrow> Q' (f s)"
  shows "okExcept sid Q' (updSession sid f w)"
  unfolding okExcept_def
proof (intro allI impI)
  fix sid' s
  assume a: "sessions (updSession sid f w) sid' = Some s"
  show "if sid' = sid then Q' s else sessOk s"
  proof (cases "sid' = sid")
    case True
    with a obtain s0 where s0: "sessions w sid = Some s0" and s: "s = f s0"
      by (cases "sessions w sid") simp_all
    from okExceptD [OF assms(1) s0] have "Q s0" by simp
    with assms(2) s True show ?thesis by simp
  next
    case False
    with a have "sessions w sid' = Some s" by simp
    from okExceptD [OF assms(1) this] False show ?thesis by simp
  qed
qed

lemma okExcept_updSession_at:
  assumes "okExcept sid Q w" and "sessions w sid = Some s0" and "Q s0 \<Longrightarrow> Q' (f s0)"
  shows "okExcept sid Q' (updSession sid f w)"
  unfolding okExcept_def
proof (intro allI impI)
  fix sid' s
  assume a: "sessions (updSession sid f w) sid' = Some s"
  show "if sid' = sid then Q' s else sessOk s"
  proof (cases "sid' = sid")
    case True
    with a assms(2) have s: "s = f s0" by simp
    from okExceptD [OF assms(1,2)] have "Q s0" by simp
    with assms(3) s True show ?thesis by simp
  next
    case False
    with a have "sessions w sid' = Some s" by simp
    from okExceptD [OF assms(1) this] False show ?thesis by simp
  qed
qed

lemma allOk_updSession:
  assumes "allOk w" and "\<And>s. sessOk s \<Longrightarrow> sessOk (f s)"
  shows "allOk (updSession sid f w)"
  using okExcept_updSession [of sid sessOk w sessOk f] assms
  by (simp add: allOk_okExcept [of _ sid])

lemma okExcept_simple [simp]:
  "okExcept sid Q (call e w) = okExcept sid Q w"
  "okExcept sid Q (emit p r ev w) = okExcept sid Q w"
  "okExcept sid Q (emitSystem env p r m w) = okExcept sid Q w"
  "okExcept sid Q (postChat r e' w) = okExcept sid Q w"
  by (rule okExcept_sessions_eq, simp)+

lemma allOk_simple [simp]:
  "allOk (call e w) = allOk w" "allOk (emit p r ev w) = allOk w"
  "allOk (emitSystem env p r m w) = allOk w" "allOk (postChat r e' w) = allOk w"
  by (rule allOk_sessions_eq, simp)+

lemma okExcept_stopPlaybackTimer:
  assumes "okExcept sid Q w" and "\<And>s. Q s \<Longrightarrow> Q (s\<lparr> playbackTimer := None \<rparr>)"
  shows "okExcept sid Q (stopPlaybackTimer sid w)"
proof (cases "sessions w sid")
  case None
  with assms(1) show ?thesis by (simp add: stopPlaybackTimer_def)
next
  case (Some s)
  show ?thesis
  proof (cases "playbackTimer s")
    case None
    with Some assms(1) show ?thesis by (simp add: stopPlaybackTimer_def)
  next
    case (Some t)
    have "okExcept sid Q (updSession sid (\<lambda>s. s\<lparr> playbackTimer := None \<rparr>) (call (ClearInterval t) w))"
      using assms by (intro okExcept_updSession [where Q = Q]) simp_all
    with \<open>sessions w sid = Some s\<close> Some show ?thesis by (simp add: stopPlaybackTimer_def)
  qed
qed

lemma allOk_stopPlaybackTimer: "allOk w \<Longrightarrow> allOk (stopPlaybackTimer sid w)"
  unfolding allOk_okExcept [of _ sid] by (rule okExcept_stopPlaybackTimer) simp_all

lemma okExcept_nextId [simp]: "okExcept sid Q (w\<lparr> nextId := n \<rparr>) = okExcept sid Q w"
  by (simp add: okExcept_def)

lemma okExcept_startPlaybackLoop:
  assumes "okExcept sid midOk w"
  shows "okExcept sid midOk (startPlaybackLoop sid w)"
proof (cases "sessions w sid")
  case None
  with assms show ?thesis by (simp add: startPlaybackLoop_def)
next
  case (Some s)
  show ?thesis
  proof (cases "playbackTimer s")
    case None
    have "okExcept sid midOk
            (updSession sid (\<lambda>s. s\<lparr> playbackTimer := Some (nextId w) \<rparr>)
               (call (SetInterval (nextId w)) (w\<lparr> nextId := Suc (nextId w) \<rparr>)))"
      using assms by (intro okExcept_updSession [where Q = midOk]) simp_all
    with Some None show ?thesis by (simp add: startPlaybackLoop_def Let_def)
  next
    case (Some t)
    with \<open>sessions w sid = Some s\<close> assms show ?thesis by (simp add: startPlaybackLoop_def)
  qed
qed

lemma okExcept_enqueueAssistantAudio:
  assumes "okExcept sid midOk w"
  shows "okExcept sid midOk (enqueueAssistantAudio sid p w)"
proof (cases "p = []")
  case True
  with assms show ?thesis by (simp add: enqueueAssistantAudio_def)
next
  case False
  have "okExcept sid midOk
          (updSession sid
             (\<lambda>s. s\<lparr> playbackQueue := playbackQueue s @
                        [\<lparr> samples = p, sampleRate = PLAYBACK_SAMPLE_RATE, cursor = 0 \<rparr>] \<rparr>) w)"
    using assms by (intro okExcept_updSession [where Q = midOk]) simp_all
  with False show ?thesis
    by (simp add: enqueueAssistantAudio_def okExcept_startPlaybackLoop)
qed

lemma allOk_drainFinally: "okExcept sid midOk w \<Longrightarrow> allOk (drainFinally sid w)"
  unfolding drainFinally_def allOk_okExcept [of _ sid]
  by (erule okExcept_updSession) (simp add: midOk_def sessOk_def)

lemma okExcept_absent:
  "sessions w sid = None \<Longrightarrow> okExcept sid Q w = allOk w"
  unfolding okExcept_def allOk_def by (metis option.distinct(1))

lemma allOk_drainLoop:
  assumes "okExcept sid midOk w"
  shows "allOk (drainLoop sid w)"
proof (cases "sessions w sid")
  case None
  with assms show ?thesis by (simp add: drainLoop_def okExcept_absent)
next
  case (Some s)
  from okExceptD [OF assms Some] have mid: "midOk s" by simp
  show ?thesis
  proof (cases "turnQueue s")
    case Nil
    with Some assms show ?thesis by (simp add: drainLoop_def allOk_drainFinally)
  next
    case (Cons turn rest)
    have "okExcept sid sessOk
            (updSession sid (\<lambda>s. s\<lparr> turnQueue := rest,
                                     drainTasks := drainTasks s @ [AwaitTranscribe turn] \<rparr>) w)"
    proof (rule okExcept_updSession_at [OF assms Some])
      show "sessOk (s\<lparr> turnQueue := rest, drainTasks := drainTasks s @ [AwaitTranscribe turn] \<rparr>)"
        using mid Cons by (simp add: midOk_def sessOk_def)
    qed
    with Some Cons show ?thesis
      by (simp add: drainLoop_def allOk_okExcept [of _ sid])
  qed
qed

lemma allOk_drainTurnQueue:
  assumes "allOk w"
  shows "allOk (drainTurnQueue sid w)"
proof (cases "sessions w sid")
  case None
  with assms show ?thesis by (simp add: drainTurnQueue_def)
next
  case (Some s)
  show ?thesis
  proof (cases "processingTurn s")
    case True
    with Some assms show ?thesis by (simp add: drainTurnQueue_def)
  next
    case False
    have "okExcept sid midOk (updSession sid (\<lambda>s. s\<lparr> processingTurn := True \<rparr>) w)"
    proof (rule okExcept_updSession_at [OF assms [unfolded allOk_okExcept [of _ sid]] Some])
      show "midOk (s\<lparr> processingTurn := True \<rparr>)"
        using allOkD [OF assms Some] False by (simp add: midOk_def sessOk_def)
    qed
    with Some False show ?thesis
      by (simp add: drainTurnQueue_def allOk_drainLoop)
  qed
qed

lemma length_push_capped: "length xs \<le> n \<Longrightarrow> length (push_capped n x xs) \<le> n"
  by (auto simp add: push_capped_def Let_def)

lemma allOk_enqueueTurn:
  assumes "allOk w"
  shows "allOk (enqueueTurn sid turn w)"
  unfolding enqueueTurn_def
proof (rule allOk_drainTurnQueue, rule allOk_updSession [OF assms])
  fix s assume "sessOk s"
  then show "sessOk (s\<lparr> turnQueue := push_capped 3 turn (turnQueue s) \<rparr>)"
    by (simp add: sessOk_def length_push_capped)
qed

lemma allOk_drainEmitAssistant:
  assumes "okExcept sid midOk w"
  shows "allOk (drainEmitAssistant env sid u r w)"
proof (cases "sessions w sid")
  case None
  with assms show ?thesis by (simp add: drainEmitAssistant_def okExcept_absent)
next
  case (Some s)
  with assms show ?thesis
    by (simp add: drainEmitAssistant_def allOk_drainLoop)
qed

section \<open>Every step keeps the invariants\<close>

lemma allOk_other_fields [simp]:
  "allOk (w\<lparr> pendingServerCandidates := a \<rparr>) = allOk w"
  "allOk (w\<lparr> serverSessions := b \<rparr>) = allOk w"
  "allOk (w\<lparr> nextId := c \<rparr>) = allOk w"
  "allOk (w\<lparr> wrtcLoadPromise := d \<rparr>) = allOk w"
  by (simp_all add: allOk_def)

lemma allOk_maybeFinalizeUtterance:
  assumes "allOk w"
  shows "allOk (maybeFinalizeUtterance env sid now w)"
proof -
  have r: "allOk (updSession sid (\<lambda>s. s\<lparr> vad := resetVad (vad s) \<rparr>) w)"
    by (rule allOk_updSession [OF assms]) simp
  show ?thesis
    using assms r
    by (simp add: maybeFinalizeUtterance_def Let_def allOk_enqueueTurn split: option.split)
qed

lemma allOk_handleInboundAudioFrame:
  assumes "allOk w"
  shows "allOk (handleInboundAudioFrame env sid frame w)"
proof -
  have r: "allOk (updSession sid (\<lambda>s. s\<lparr> vad := v \<rparr>) w)" for v
    by (rule allOk_updSession [OF assms]) simp
  from handleInboundAudioFrame_shape [of env sid frame w] assms r
  show ?thesis
    by (elim exE disjE) (simp_all add: allOk_maybeFinalizeUtterance)
qed

lemma allOk_playbackTick:
  assumes "allOk w"
  shows "allOk (playbackTick env sid w)"
proof -
  have q: "allOk (updSession sid (\<lambda>s. s\<lparr> playbackQueue := q \<rparr>) w')" if "allOk w'" for q w'
    by (rule allOk_updSession [OF that]) simp
  show ?thesis
    using assms
    by (simp add: playbackTick_def Let_def allOk_stopPlaybackTimer q
        split: option.split list.split)
qed

lemma allOk_closeSession:
  assumes "allOk w"
  shows "allOk (snd (closeSession env room peer w))"
proof (cases "getServerSession w room peer")
  case None
  with assms show ?thesis by (simp add: closeSession_def)
next
  case (Some a)
  obtain sid s where a: "a = (sid, s)" by (cases a)
  have u: "allOk (updSession sid' f w')"
    if "allOk w'" and "\<And>x. sessOk (f x) = sessOk x" for sid' f w'
    by (rule allOk_updSession [OF that(1)]) (simp add: that(2))
  show ?thesis
    using assms Some a
    by (simp add: closeSession_def Let_def u allOk_stopPlaybackTimer split: option.split)
qed

lemma sessOk_newSession: "sessOk (newSession room user botPeer a b c)"
  by (simp add: sessOk_def newSession_def)

lemma allOk_add: "allOk w \<Longrightarrow> sessOk s \<Longrightarrow> allOk (w\<lparr> sessions := (sessions w)(sid \<mapsto> s) \<rparr>)"
  by (simp add: allOk_def)

lemma allOk_run_calls: "allOk w \<Longrightarrow> allOk (snd (run_calls env cs w))"
  by (simp add: allOk_sessions_eq [of "snd (run_calls env cs w)" w])

lemma allOk_loadWrtc: "allOk w \<Longrightarrow> allOk (snd (loadWrtc env w))"
  by (simp add: allOk_sessions_eq [of "snd (loadWrtc env w)" w])

lemma allOk_createServerSession:
  assumes "allOk w"
  shows "allOk (snd (snd (createServerSession env room user botPeer w)))"
proof -
  obtain r1 w1 where c: "closeSession env room user w = (r1, w1)"
    by (cases "closeSession env room user w")
  have w1: "allOk w1"
    using allOk_closeSession [OF assms, of env room user] c by simp
  obtain ok w2 where l: "loadWrtc env w1 = (ok, w2)"
    by (cases "loadWrtc env w1")
  have w2: "allOk w2"
    using allOk_loadWrtc [OF w1, of env] l by simp
  let ?calls = "[NewPeerConnection (nextId w2), NewAudioSource (nextId w2 + 1),
                 CreateTrack (nextId w2 + 1) (nextId w2 + 2), PcAddTrack (nextId w2) (nextId w2 + 2)]"
  obtain r3 w3 where rc: "run_calls env ?calls (w2\<lparr> nextId := nextId w2 + 4 \<rparr>) = (r3, w3)"
    by (cases "run_calls env ?calls (w2\<lparr> nextId := nextId w2 + 4 \<rparr>)")
  have w3: "allOk w3"
    using allOk_run_calls [of "w2\<lparr> nextId := nextId w2 + 4 \<rparr>" env ?calls] w2 rc by simp
  show ?thesis
    using c l rc w1 w2 w3
    by (cases r1; cases ok; cases r3)
       (simp_all add: createServerSession_def Let_def allOk_add sessOk_newSession)
qed

lemma sessions_answerOffer: "sessions (snd (answerOffer env event sid sdp w)) = sessions w"
proof (cases "sessions w sid")
  case None
  then show ?thesis by (simp add: answerOffer_def)
next
  case (Some s)
  let ?key = "roomPeerKey (ev_roomId event) (ev_from event)"
  let ?w1 = "call (PcSetRemoteDescription (pc s) sdp) w"
  let ?w2 = "case pendingServerCandidates ?w1 ?key of
               None \<Rightarrow> ?w1
             | Some queued \<Rightarrow>
                 if queued = [] then ?w1
                 else (addQueuedCandidates (pc s) queued ?w1)
                        \<lparr> pendingServerCandidates := (pendingServerCandidates ?w1)(?key := None) \<rparr>"
  have w2: "sessions ?w2 = sessions w"
    by (simp split: option.split)
  consider (a) "throws env (PcSetRemoteDescription (pc s) sdp)"
    | (b) "\<not> throws env (PcSetRemoteDescription (pc s) sdp)" "throws env (PcCreateAnswer (pc s))"
    | (c) "\<not> throws env (PcSetRemoteDescription (pc s) sdp)" "\<not> throws env (PcCreateAnswer (pc s))"
          "throws env (PcSetLocalDescription (pc s) (answerSdp env))"
    | (d) "\<not> throws env (PcSetRemoteDescription (pc s) sdp)" "\<not> throws env (PcCreateAnswer (pc s))"
          "\<not> throws env (PcSetLocalDescription (pc s) (answerSdp env))"
    by blast
  then show ?thesis
  proof cases
    case a
    with Some show ?thesis by (simp add: answerOffer_def Let_def)
  next
    case b
    with Some w2 show ?thesis by (simp add: answerOffer_def Let_def)
  next
    case c
    with Some w2 show ?thesis by (simp add: answerOffer_def Let_def)
  next
    case d
    with Some w2 show ?thesis by (simp add: answerOffer_def Let_def)
  qed
qed

lemma allOk_answerOffer:
  assumes "allOk w"
  shows "allOk (snd (answerOffer env event sid sdp w))"
  using assms allOk_sessions_eq [OF sessions_answerOffer, of env event sid sdp w] by simp

lemma allOk_handleServerBotSignal:
  assumes "allOk w"
  shows "allOk (snd (handleServerBotSignal env event w))"
proof -
  let ?bot = "case ev_to event of None \<Rightarrow> BOT_PEER_PREFIX @ ''server'' | Some b \<Rightarrow> b"
  obtain r1 o1 w1 where c: "createServerSession env (ev_roomId event) (ev_from event) ?bot w = (r1, o1, w1)"
    by (cases "createServerSession env (ev_roomId event) (ev_from event) ?bot w")
  have w1: "allOk w1"
    using allOk_createServerSession [OF assms, of env "ev_roomId event" "ev_from event" ?bot] c
    by simp
  have fin: "allOk (snd (closeSession env (ev_roomId event) (ev_from event)
               (emitSystem env (ev_from event) (ev_roomId event) ''offer_handling_failed'' w')))"
    if "allOk w'" for w'
    by (rule allOk_closeSession) (simp add: that)
  have ans: "allOk (snd (answerOffer env event sid sdp w1))" for sid sdp
    by (rule allOk_answerOffer [OF w1])
  have split_ans: "allOk (snd (case answerOffer env event sid sdp w1 of
                      (Normal, w2) \<Rightarrow> (Normal, w2)
                    | (Throws, w2) \<Rightarrow>
                        closeSession env (ev_roomId event) (ev_from event)
                          (emitSystem env (ev_from event) (ev_roomId event)
                             ''offer_handling_failed'' w2)))" for sid sdp
    using ans [of sid sdp] fin
    by (cases "answerOffer env event sid sdp w1"; cases "fst (answerOffer env event sid sdp w1)")
       simp_all
  show ?thesis
    using assms c w1 split_ans
    by (cases r1; cases o1)
       (simp_all add: handleServerBotSignal_def Let_def allOk_closeSession
          split: option.split prod.split)
qed

lemma allOk_relaySignal:
  assumes "allOk w"
  shows "allOk (snd (relaySignal env event w))"
proof -
  let ?pre = "if ev_type event = TBye
             then (case closeSession env (ev_roomId event) (ev_from event) w of
                     (Throws, w1) \<Rightarrow> (Throws, w1)
                   | (Normal, w1) \<Rightarrow>
                       if to_set event
                       then closeSession env (ev_roomId event) (the (ev_to event)) w1
                       else (Normal, w1))
             else (Normal, w)"
  obtain r w1 where p: "?pre = (r, w1)" by (cases ?pre)
  have "allOk (snd ?pre)"
    using assms allOk_closeSession [OF assms, of env "ev_roomId event" "ev_from event"]
      allOk_closeSession [of "snd (closeSession env (ev_roomId event) (ev_from event) w)" env
        "ev_roomId event" "the (ev_to event)"]
    by (cases "closeSession env (ev_roomId event) (ev_from event) w";
        cases "fst (closeSession env (ev_roomId event) (ev_from event) w)") simp_all
  with p have w1: "allOk w1" by simp
  show ?thesis
    unfolding relaySignal_def p Let_def
    using w1 allOk_handleServerBotSignal [OF w1, of env event] by simp
qed

lemma allOk_callbacks:
  assumes "allOk w"
  shows "allOk (onIceCandidate env sid c w)"
    and "allOk (snd (onConnectionStateChange env sid st w))"
    and "allOk (snd (onTrack env sid kind w))"
    and "allOk (snd (onTrackEnded env sid k w))"
    and "allOk (verifyVoiceTooling env sid w)"
proof -
  have u: "allOk (updSession sid' f w')"
    if "allOk w'" and "\<And>x. sessOk (f x) = sessOk x" for sid' f w'
    by (rule allOk_updSession [OF that(1)]) (simp add: that(2))
  show "allOk (onIceCandidate env sid c w)"
    using assms by (simp add: onIceCandidate_def split: option.split)
  show "allOk (snd (onConnectionStateChange env sid st w))"
    using assms by (simp add: onConnectionStateChange_def allOk_closeSession split: option.split)
  show "allOk (snd (onTrack env sid kind w))"
    using assms by (simp add: onTrack_def Let_def u split: option.split)
  show "allOk (snd (onTrackEnded env sid k w))"
    using assms by (simp add: onTrackEnded_def Let_def u)
  show "allOk (verifyVoiceTooling env sid w)"
    using assms by (simp add: verifyVoiceTooling_def Let_def split: option.split)
qed

lemma remove_nth_single: "i < length xs \<Longrightarrow> length xs \<le> 1 \<Longrightarrow> remove_nth i xs = []"
  by (cases xs) (simp_all add: remove_nth_def)

lemma allOk_drainResume:
  assumes "allOk w"
  shows "allOk (drainResume env sid i w)"
proof (cases "sessions w sid")
  case None
  with assms show ?thesis by (simp add: drainResume_def)
next
  case (Some s)
  show ?thesis
  proof (cases "i < length (drainTasks s)")
    case False
    with Some assms show ?thesis by (simp add: drainResume_def)
  next
    case True
    let ?w1 = "updSession sid (\<lambda>s. s\<lparr> drainTasks := remove_nth i (drainTasks s) \<rparr>) w"
    from allOkD [OF assms Some] have ok: "sessOk s" .
    have mid: "okExcept sid midOk ?w1"
    proof (rule okExcept_updSession_at [OF assms [unfolded allOk_okExcept [of _ sid]] Some])
      show "midOk (s\<lparr> drainTasks := remove_nth i (drainTasks s) \<rparr>)"
        using ok True by (auto simp add: midOk_def sessOk_def remove_nth_single)
    qed
    have mid_chat: "okExcept sid midOk (postChat r e ?w1)" for r e
      using mid by simp
    have fin: "allOk (drainFinally sid ?w1)"
      by (rule allOk_drainFinally [OF mid])
    have loop: "allOk (drainLoop sid ?w1)"
      by (rule allOk_drainLoop [OF mid])
    have loop_sys: "allOk (drainLoop sid (emitSystem env p r m ?w1))" for p r m
      by (rule allOk_drainLoop) (simp add: mid)
    have susp: "allOk (updSession sid f w')"
      if "okExcept sid midOk w'" and "\<And>x. midOk x \<Longrightarrow> sessOk (f x)" for f w'
      unfolding allOk_okExcept [of _ sid] using that by (rule okExcept_updSession)
    have susp1: "allOk (postChat r u
                   (updSession sid (\<lambda>s. s\<lparr> lastTranscript := t, lastTranscriptAt := n,
                        drainTasks := drainTasks s @ [x] \<rparr>) ?w1))" for r u t n x
      using susp [OF mid, of "\<lambda>s. s\<lparr> lastTranscript := t, lastTranscriptAt := n,
                        drainTasks := drainTasks s @ [x] \<rparr>"]
      by (simp add: midOk_def sessOk_def)
    have susp2: "allOk (updSession sid (\<lambda>s. s\<lparr> drainTasks := drainTasks s @ [x] \<rparr>)
                   (postChat r e ?w1))" for r e x
      using susp [OF mid_chat, of "\<lambda>s. s\<lparr> drainTasks := drainTasks s @ [x] \<rparr>" r e]
      by (simp add: midOk_def sessOk_def)
    have em1: "allOk (drainEmitAssistant env sid u rp (postChat r e ?w1))" for u rp r e
      by (rule allOk_drainEmitAssistant [OF mid_chat])
    have em2: "allOk (drainEmitAssistant env sid u rp (enqueueAssistantAudio sid p ?w1))" for u rp p
      by (rule allOk_drainEmitAssistant [OF okExcept_enqueueAssistantAudio [OF mid]])
    have em3: "allOk (drainEmitAssistant env sid u rp ?w1)" for u rp
      by (rule allOk_drainEmitAssistant [OF mid])
    show ?thesis
      using Some True fin loop loop_sys susp1 susp2 em1 em2 em3
      by (simp add: drainResume_def Let_def
          split: drain_await.split awaited.split option.split)
  qed
qed

lemma allOk_apply_op: "allOk w \<Longrightarrow> allOk (apply_op op w)"
  by (cases op)
     (simp_all add: allOk_relaySignal allOk_callbacks allOk_handleInboundAudioFrame
        allOk_playbackTick allOk_drainResume allOk_sessions_eq [OF sessions_streams(1)]
        allOk_sessions_eq [OF sessions_streams(2)])

lemma allOk_run: "allOk w \<Longrightarrow> allOk (run ops w)"
  unfolding run_def by (induction ops arbitrary: w) (simp_all add: allOk_apply_op)

lemma allOk_initial: "allOk initial"
  by (simp add: allOk_def initial_def)

section \<open>The pending-candidate buffers stay bounded\<close>

lemma pendingBounded_eq:
  "pendingServerCandidates w' = pendingServerCandidates w \<Longrightarrow> pendingBounded w' = pendingBounded w"
  by (simp add: pendingBounded_def)

lemma pendingBounded_delete:
  "pendingBounded w \<Longrightarrow> pendingServerCandidates w' = (pendingServerCandidates w)(key := None)
   \<Longrightarrow> pendingBounded w'"
  by (simp add: pendingBounded_def)

lemma pending_closeSession:
  "pendingServerCandidates (snd (closeSession env room peer w)) =
     (if getServerSession w room peer = None then pendingServerCandidates w
      else (pendingServerCandidates w)(roomPeerKey room peer := None))"
proof (cases "getServerSession w room peer")
  case None
  then show ?thesis by (simp add: closeSession_def)
next
  case (Some a)
  then show ?thesis
    by (cases a) (simp add: closeSession_def Let_def split: option.split)
qed

lemma pendingBounded_closeSession:
  "pendingBounded w \<Longrightarrow> pendingBounded (snd (closeSession env room peer w))"
  using pending_closeSession [of env room peer w]
  by (cases "getServerSession w room peer = None")
     (simp_all add: pendingBounded_eq [of "snd (closeSession env room peer w)" w]
        pendingBounded_delete [of w "snd (closeSession env room peer w)"])

lemma pending_createServerSession:
  "pendingServerCandidates (snd (snd (createServerSession env room user botPeer w)))
     = pendingServerCandidates (snd (closeSession env room user w))"
proof -
  obtain r1 w1 where c: "closeSession env room user w = (r1, w1)"
    by (cases "closeSession env room user w")
  obtain ok w2 where l: "loadWrtc env w1 = (ok, w2)"
    by (cases "loadWrtc env w1")
  have w2: "pendingServerCandidates w2 = pendingServerCandidates w1"
    using pending_loadWrtc [of env w1] l by simp
  let ?calls = "[NewPeerConnection (nextId w2), NewAudioSource (nextId w2 + 1),
                 CreateTrack (nextId w2 + 1) (nextId w2 + 2), PcAddTrack (nextId w2) (nextId w2 + 2)]"
  obtain r3 w3 where rc: "run_calls env ?calls (w2\<lparr> nextId := nextId w2 + 4 \<rparr>) = (r3, w3)"
    by (cases "run_calls env ?calls (w2\<lparr> nextId := nextId w2 + 4 \<rparr>)")
  have w3: "pendingServerCandidates w3 = pendingServerCandidates w1"
    using pending_run_calls [of env ?calls "w2\<lparr> nextId := nextId w2 + 4 \<rparr>"] rc w2 by simp
  show ?thesis
    using c l rc w2 w3
    by (cases r1; cases ok; cases r3) (simp_all add: createServerSession_def Let_def)
qed

lemma pendingBounded_createServerSession:
  "pendingBounded w \<Longrightarrow> pendingBounded (snd (snd (createServerSession env room user botPeer w)))"
  using pendingBounded_eq [OF pending_createServerSession, of env room user botPeer w]
    pendingBounded_closeSession [of w env room user]
  by simp

lemma pending_answerOffer:
  "pendingServerCandidates (snd (answerOffer env event sid sdp w)) = pendingServerCandidates w
   \<or> pendingServerCandidates (snd (answerOffer env event sid sdp w))
       = (pendingServerCandidates w)(roomPeerKey (ev_roomId event) (ev_from event) := None)"
proof (cases "sessions w sid")
  case None
  then show ?thesis by (simp add: answerOffer_def)
next
  case (Some s)
  let ?key = "roomPeerKey (ev_roomId event) (ev_from event)"
  let ?w1 = "call (PcSetRemoteDescription (pc s) sdp) w"
  let ?w2 = "case pendingServerCandidates ?w1 ?key of
               None \<Rightarrow> ?w1
             | Some queued \<Rightarrow>
                 if queued = [] then ?w1
                 else (addQueuedCandidates (pc s) queued ?w1)
                        \<lparr> pendingServerCandidates := (pendingServerCandidates ?w1)(?key := None) \<rparr>"
  have w2: "pendingServerCandidates ?w2 = pendingServerCandidates w
            \<or> pendingServerCandidates ?w2 = (pendingServerCandidates w)(?key := None)"
    by (simp split: option.split)
  consider (a) "throws env (PcSetRemoteDescription (pc s) sdp)"
    | (b) "\<not> throws env (PcSetRemoteDescription (pc s) sdp)" "throws env (PcCreateAnswer (pc s))"
    | (c) "\<not> throws env (PcSetRemoteDescription (pc s) sdp)" "\<not> throws env (PcCreateAnswer (pc s))"
          "throws env (PcSetLocalDescription (pc s) (answerSdp env))"
    | (d) "\<not> throws env (PcSetRemoteDescription (pc s) sdp)" "\<not> throws env (PcCreateAnswer (pc s))"
          "\<not> throws env (PcSetLocalDescription (pc s) (answerSdp env))"
    by blast
  then show ?thesis
  proof cases
    case a
    with Some show ?thesis by (simp add: answerOffer_def Let_def)
  next
    case b
    with Some w2 show ?thesis by (simp add: answerOffer_def Let_def)
  next
    case c
    with Some w2 show ?thesis by (simp add: answerOffer_def Let_def)
  next
    case d
    with Some w2 show ?thesis by (simp add: answerOffer_def Let_def)
  qed
qed

lemma pendingBounded_answerOffer:
  "pendingBounded w \<Longrightarrow> pendingBounded (snd (answerOffer env event sid sdp w))"
  using pending_answerOffer [of env event sid sdp w]
    pendingBounded_eq [of "snd (answerOffer env event sid sdp w)" w]
    pendingBounded_delete [of w "snd (answerOffer env event sid sdp w)"]
  by blast

lemma pendingBounded_emitSystem [simp]:
  "pendingBounded (emitSystem env p r m w) = pendingBounded w"
  by (rule pendingBounded_eq) simp

lemma pendingBounded_push:
  assumes "pendingBounded w"
  shows "pendingBounded (w\<lparr> pendingServerCandidates := (pendingServerCandidates w)
           (key \<mapsto> push_capped MAX_PENDING_SERVER_CANDIDATES c
                      (case pendingServerCandidates w key of None \<Rightarrow> [] | Some q \<Rightarrow> q)) \<rparr>)"
proof -
  have "length (case pendingServerCandidates w key of None \<Rightarrow> [] | Some q \<Rightarrow> q)
          \<le> MAX_PENDING_SERVER_CANDIDATES"
    using assms by (simp add: pendingBounded_def split: option.split)
  from length_push_capped [OF this] assms show ?thesis
    by (simp add: pendingBounded_def)
qed

lemma pendingBounded_handleServerBotSignal:
  assumes "pendingBounded w"
  shows "pendingBounded (snd (handleServerBotSignal env event w))"
proof -
  let ?bot = "case ev_to event of None \<Rightarrow> BOT_PEER_PREFIX @ ''server'' | Some b \<Rightarrow> b"
  let ?key = "roomPeerKey (ev_roomId event) (ev_from event)"
  consider (bye) "ev_type event = TBye"
    | (candidate) "ev_type event = TCandidate"
    | (offer) "ev_type event = TOffer"
    | (other) "ev_type event \<noteq> TBye" "ev_type event \<noteq> TCandidate" "ev_type event \<noteq> TOffer"
    by blast
  then show ?thesis
  proof cases
    case bye
    with assms show ?thesis
      by (simp add: handleServerBotSignal_def pendingBounded_closeSession)
  next
    case candidate
    have add: "pendingBounded (call e w)" for e
      using assms pendingBounded_eq [of "call e w" w] by simp
    have push: "pendingBounded (w\<lparr> pendingServerCandidates := (pendingServerCandidates w)
           (?key \<mapsto> push_capped MAX_PENDING_SERVER_CANDIDATES c
                      (case pendingServerCandidates w ?key of None \<Rightarrow> [] | Some q \<Rightarrow> q)) \<rparr>)" for c
      by (rule pendingBounded_push [OF assms])
    show ?thesis
    proof (cases "asIceCandidate (ev_payload event)")
      case None
      with candidate assms show ?thesis by (simp add: handleServerBotSignal_def)
    next
      case (Some c)
      show ?thesis
      proof (cases "getServerSession w (ev_roomId event) (ev_from event)")
        case None
        with candidate Some push [of c] show ?thesis
          by (simp add: handleServerBotSignal_def Let_def)
      next
        case session: (Some a)
        with candidate Some add show ?thesis
          by (cases a) (simp add: handleServerBotSignal_def Let_def)
      qed
    qed
  next
    case other
    with assms show ?thesis by (simp add: handleServerBotSignal_def)
  next
    case offer
    obtain r1 o1 w1 where c: "createServerSession env (ev_roomId event) (ev_from event) ?bot w = (r1, o1, w1)"
      by (cases "createServerSession env (ev_roomId event) (ev_from event) ?bot w")
    have w1: "pendingBounded w1"
      using pendingBounded_createServerSession [OF assms, of env "ev_roomId event" "ev_from event" ?bot] c
      by simp
    have fin: "pendingBounded (snd (closeSession env (ev_roomId event) (ev_from event)
                 (emitSystem env (ev_from event) (ev_roomId event) ''offer_handling_failed'' w')))"
      if "pendingBounded w'" for w'
      by (rule pendingBounded_closeSession) (simp add: that)
    have ans: "pendingBounded (snd (answerOffer env event sid sdp w1))" for sid sdp
      by (rule pendingBounded_answerOffer [OF w1])
    have split_ans: "pendingBounded (snd (case answerOffer env event sid sdp w1 of
                        (Normal, w2) \<Rightarrow> (Normal, w2)
                      | (Throws, w2) \<Rightarrow>
                          closeSession env (ev_roomId event) (ev_from event)
                            (emitSystem env (ev_from event) (ev_roomId event)
                               ''offer_handling_failed'' w2)))" for sid sdp
      using ans [of sid sdp] fin
      by (cases "answerOffer env event sid sdp w1"; cases "fst (answerOffer env event sid sdp w1)")
         simp_all
    show ?thesis
      using offer assms c w1 split_ans
      by (cases r1; cases o1)
         (simp_all add: handleServerBotSignal_def Let_def split: option.split prod.split)
  qed
qed

lemma pendingBounded_relaySignal:
  assumes "pendingBounded w"
  shows "pendingBounded (snd (relaySignal env event w))"
proof -
  let ?pre = "if ev_type event = TBye
             then (case closeSession env (ev_roomId event) (ev_from event) w of
                     (Throws, w1) \<Rightarrow> (Throws, w1)
                   | (Normal, w1) \<Rightarrow>
                       if to_set event
                       then closeSession env (ev_roomId event) (the (ev_to event)) w1
                       else (Normal, w1))
             else (Normal, w)"
  obtain r w1 where p: "?pre = (r, w1)" by (cases ?pre)
  have "pendingBounded (snd ?pre)"
    using assms pendingBounded_closeSession [OF assms, of env "ev_roomId event" "ev_from event"]
      pendingBounded_closeSession [of "snd (closeSession env (ev_roomId event) (ev_from event) w)" env
        "ev_roomId event" "the (ev_to event)"]
    by (cases "closeSession env (ev_roomId event) (ev_from event) w";
        cases "fst (closeSession env (ev_roomId event) (ev_from event) w)") simp_all
  with p have w1: "pendingBounded w1" by simp
  have e: "pendingBounded (emit a b c w1) = pendingBounded w1" for a b c
    by (rule pendingBounded_eq) simp
  show ?thesis
    unfolding relaySignal_def p Let_def
    using w1 pendingBounded_handleServerBotSignal [OF w1, of env event] by (simp add: e)
qed

lemma pendingBounded_apply_op:
  assumes "pendingBounded w"
  shows "pendingBounded (apply_op op w)"
proof (cases op)
  case (Signal env event)
  with assms show ?thesis by (simp add: pendingBounded_relaySignal)
next
  case (PcConnectionState env sid st)
  with assms show ?thesis
    by (simp add: onConnectionStateChange_def pendingBounded_closeSession split: option.split)
qed (use assms in \<open>simp_all add: pendingBounded_def\<close>)

lemma pendingBounded_run: "pendingBounded w \<Longrightarrow> pendingBounded (run ops w)"
  unfolding run_def by (induction ops arbitrary: w) (simp_all add: pendingBounded_apply_op)

lemma pendingBounded_initial: "pendingBounded initial"
  by (simp add: pendingBounded_def initial_def)

section \<open>Bounded queues\<close>

lemma push_capped_full: "length xs = n \<Longrightarrow> 0 < n \<Longrightarrow> push_capped n x xs = tl xs @ [x]"
  by (cases xs) (simp_all add: push_capped_def Let_def)

lemma push_capped_room: "length xs < n \<Longrightarrow> push_capped n x xs = xs @ [x]"
  by (simp add: push_capped_def Let_def)

lemma enqueueTurn_busy:
  assumes "sessions w sid = Some s" and "processingTurn s"
  shows "sessions (enqueueTurn sid turn w) sid
           = Some (s\<lparr> turnQueue := push_capped 3 turn (turnQueue s) \<rparr>)"
  using assms by (simp add: enqueueTurn_def drainTurnQueue_def)

text \<open>
  Claim C5. In every state that the server reaches from its start, by any sequence of
  steps, no session has more than 3 segments in its turn queue and no pending-candidate
  buffer has more than 80 candidates. A segment enqueued on a full turn queue (the worker
  being busy) evicts the oldest one, and a candidate buffered for a pair without session
  on a full buffer evicts the oldest candidate.
\<close>

theorem queues_bounded:
  "(\<forall>sid s. sessions (run ops initial) sid = Some s \<longrightarrow> length (turnQueue s) \<le> 3)
   \<and> (\<forall>key queue. pendingServerCandidates (run ops initial) key = Some queue
         \<longrightarrow> length queue \<le> 80)
   \<and> (\<forall>s. sessions w sid = Some s \<longrightarrow> processingTurn s \<longrightarrow> length (turnQueue s) = 3 \<longrightarrow>
         map_option turnQueue (sessions (enqueueTurn sid turn w) sid)
           = Some (tl (turnQueue s) @ [turn]))
   \<and> (\<forall>queue. ev_type event = TCandidate \<longrightarrow> ev_payload event = CandidatePayload c \<longrightarrow>
         getServerSession w (ev_roomId event) (ev_from event) = None \<longrightarrow>
         pendingServerCandidates w (roomPeerKey (ev_roomId event) (ev_from event)) = Some queue \<longrightarrow>
         length queue = 80 \<longrightarrow>
         pendingServerCandidates (snd (handleServerBotSignal env event w))
           (roomPeerKey (ev_roomId event) (ev_from event)) = Some (tl queue @ [c]))"
proof (intro conjI allI impI)
  fix sid s
  assume "sessions (run ops initial) sid = Some s"
  from allOkD [OF allOk_run [OF allOk_initial] this]
  show "length (turnQueue s) \<le> 3" by (simp add: sessOk_def)
next
  fix key queue
  assume "pendingServerCandidates (run ops initial) key = Some queue"
  with pendingBounded_run [OF pendingBounded_initial, of ops]
  show "length queue \<le> 80"
    by (simp add: pendingBounded_def MAX_PENDING_SERVER_CANDIDATES_def)
next
  fix s
  assume "sessions w sid = Some s" and "processingTurn s" and "length (turnQueue s) = 3"
  then show "map_option turnQueue (sessions (enqueueTurn sid turn w) sid)
               = Some (tl (turnQueue s) @ [turn])"
    by (simp add: enqueueTurn_busy push_capped_full)
next
  fix queue
  assume "ev_type event = TCandidate" and "ev_payload event = CandidatePayload c"
    and "getServerSession w (ev_roomId event) (ev_from event) = None"
    and "pendingServerCandidates w (roomPeerKey (ev_roomId event) (ev_from event)) = Some queue"
    and "length queue = 80"
  then show "pendingServerCandidates (snd (handleServerBotSignal env event w))
               (roomPeerKey (ev_roomId event) (ev_from event)) = Some (tl queue @ [c])"
    by (simp add: handleServerBotSignal_def asIceCandidate_def Let_def
        MAX_PENDING_SERVER_CANDIDATES_def push_capped_full)
qed

theorem queues_bounded_witness:
  "(\<exists>s. sessions (run (oneTurnInFlight @ [Signal quietEnv
                (signal TCandidate ''v'' ''friday-voice-bot-server'' ''r'' (CandidatePayload ''candidate:1''))])
             initial) 3 = Some s \<and> length (turnQueue s) \<le> 3)
   \<and> (\<exists>queue. pendingServerCandidates (run (oneTurnInFlight @ [Signal quietEnv
                (signal TCandidate ''v'' ''friday-voice-bot-server'' ''r'' (CandidatePayload ''candidate:1''))])
             initial) ''r::v'' = Some queue \<and> length queue \<le> 80)
   \<and> map_option turnQueue
        (sessions (enqueueTurn 3 \<lparr> samples = [4], sampleRate = 8000 \<rparr>
           (updSession 3 (\<lambda>s. s\<lparr> processingTurn := True,
              turnQueue := [\<lparr> samples = [1], sampleRate = 8000 \<rparr>, \<lparr> samples = [2], sampleRate = 8000 \<rparr>,
                            \<lparr> samples = [3], sampleRate = 8000 \<rparr>] \<rparr>) oneSession)) 3)
       = Some [\<lparr> samples = [2], sampleRate = 8000 \<rparr>, \<lparr> samples = [3], sampleRate = 8000 \<rparr>,
               \<lparr> samples = [4], sampleRate = 8000 \<rparr>]
   \<and> pendingServerCandidates
        (snd (handleServerBotSignal quietEnv
                (signal TCandidate ''v'' ''friday-voice-bot-server'' ''r'' (CandidatePayload ''candidate:81''))
                (initial\<lparr> pendingServerCandidates := [''r::v'' \<mapsto> replicate 80 ''candidate:1''] \<rparr>)))
        ''r::v''
       = Some (replicate 79 ''candidate:1'' @ [''candidate:81''])"
proof -
  let ?cand = "signal TCandidate ''v'' ''friday-voice-bot-server'' ''r'' (CandidatePayload ''candidate:1'')"
  let ?last = "signal TCandidate ''v'' ''friday-voice-bot-server'' ''r'' (CandidatePayload ''candidate:81'')"
  let ?ops = "oneTurnInFlight @ [Signal quietEnv ?cand]"
  let ?t = "\<lambda>n. \<lparr> samples = [n], sampleRate = 8000 \<rparr>"
  let ?w = "updSession 3 (\<lambda>s. s\<lparr> processingTurn := True, turnQueue := [?t 1, ?t 2, ?t 3] \<rparr>) oneSession"
  let ?p = "initial\<lparr> pendingServerCandidates := [''r::v'' \<mapsto> replicate 80 ''candidate:1''] \<rparr>"
  have s: "\<exists>s. sessions (run ?ops initial) 3 = Some s"
    by (simp add: eval_defs frame_defs)
  have q: "pendingServerCandidates (run ?ops initial) ''r::v'' = Some [''candidate:1'']"
    by (simp add: eval_defs frame_defs)
  have w: "sessions ?w 3 = Some ((newSession ''r'' ''u'' ''friday-voice-bot-server'' 0 1 2)
             \<lparr> processingTurn := True, turnQueue := [?t 1, ?t 2, ?t 3] \<rparr>)"
    by (simp add: oneSession_def initial_def)
  have p: "getServerSession ?p ''r'' ''v'' = None"
    "pendingServerCandidates ?p (roomPeerKey ''r'' ''v'') = Some (replicate 80 ''candidate:1'')"
    by (simp_all add: getServerSession_def initial_def roomPeerKey_def)
  have r: "tl (replicate 80 ''candidate:1'') = replicate 79 ''candidate:1''"
    by (simp add: tl_replicate)
  note main = queues_bounded [where ops = ?ops and sid = 3 and w = ?w and turn = "?t 4"
      and event = ?last and c = "''candidate:81''" and env = quietEnv]
  note full = queues_bounded [where ops = ?ops and sid = 3 and w = ?p and turn = "?t 4"
      and event = ?last and c = "''candidate:81''" and env = quietEnv]
  from s obtain s0 where s0: "sessions (run ?ops initial) 3 = Some s0" ..
  from main [THEN conjunct1, rule_format, OF s0] s0
  have 1: "\<exists>s. sessions (run ?ops initial) 3 = Some s \<and> length (turnQueue s) \<le> 3"
    by blast
  from main [THEN conjunct2, THEN conjunct1, rule_format, OF q] q
  have 2: "\<exists>queue. pendingServerCandidates (run ?ops initial) ''r::v'' = Some queue
                          \<and> length queue \<le> 80"
    by blast
  from main [THEN conjunct2, THEN conjunct2, THEN conjunct1, rule_format, OF w]
  have 3: "map_option turnQueue (sessions (enqueueTurn 3 (?t 4) ?w) 3)
                         = Some [?t 2, ?t 3, ?t 4]"
    by simp
  have e: "ev_type ?last = TCandidate" "ev_payload ?last = CandidatePayload ''candidate:81''"
    "ev_roomId ?last = ''r''" "ev_from ?last = ''v''"
    by (simp_all add: signal_def)
  from full [THEN conjunct2, THEN conjunct2, THEN conjunct2, rule_format, OF e(1,2),
      unfolded e(3,4), OF p] r
  have 4: "pendingServerCandidates (snd (handleServerBotSignal quietEnv ?last ?p)) ''r::v''
             = Some (replicate 79 ''candidate:1'' @ [''candidate:81''])"
    by (simp add: roomPeerKey_def)
  from 1 2 3 4 show ?thesis by blast
qed

section \<open>The single-flight guard of the turn worker\<close>

lemma push_capped_not_empty: "0 < n \<Longrightarrow> push_capped n x xs \<noteq> []"
  by (cases xs) (simp_all add: push_capped_def Let_def)

text \<open>
  Claim C10. In every state that the server reaches, \<^verbatim>\<open>processingTurn\<close> of a session is
  set exactly while one invocation of \<^verbatim>\<open>drainTurnQueue\<close> is suspended at an \<^verbatim>\<open>await\<close>,
  and never more than one is; so whenever no invocation is in flight, in particular after
  one has ended, the flag is false. An invocation whose awaited promise rejects (an
  unexpected fault, or the WAV packaging of the transcription throwing) ends at once with
  the flag false. And when the flag is false, the next \<^verbatim>\<open>enqueueTurn\<close> starts a new
  invocation, which takes the head of the queue.
\<close>

theorem drain_guard_released:
  "(\<forall>sid s. sessions (run ops initial) sid = Some s \<longrightarrow>
       (processingTurn s \<longleftrightarrow> drainTasks s \<noteq> []) \<and> length (drainTasks s) \<le> 1)
   \<and> (\<forall>s. sessions (run ops initial) sid = Some s \<longrightarrow> i < length (drainTasks s) \<longrightarrow>
         (fault env \<or> (\<exists>turn. drainTasks s ! i = AwaitTranscribe turn
                           \<and> transcribePcmTurn env turn = Rejected)) \<longrightarrow>
         map_option (\<lambda>x. (processingTurn x, drainTasks x))
           (sessions (drainResume env sid i (run ops initial)) sid) = Some (False, []))
   \<and> (\<forall>s. sessions (run ops initial) sid = Some s \<longrightarrow> \<not> processingTurn s \<longrightarrow>
         map_option (\<lambda>x. (processingTurn x, drainTasks x))
           (sessions (enqueueTurn sid turn (run ops initial)) sid)
           = Some (True, [AwaitTranscribe (hd (push_capped 3 turn (turnQueue s)))]))"
proof -
  have inv: "(processingTurn s \<longleftrightarrow> drainTasks s \<noteq> []) \<and> length (drainTasks s) \<le> 1"
    if "sessions (run ops initial) sid = Some s" for sid s
    using allOkD [OF allOk_run [OF allOk_initial] that] by (simp add: sessOk_def)
  have rejected: "map_option (\<lambda>x. (processingTurn x, drainTasks x))
                    (sessions (drainResume env sid i (run ops initial)) sid) = Some (False, [])"
    if s: "sessions (run ops initial) sid = Some s" and i: "i < length (drainTasks s)"
      and rej: "fault env \<or> (\<exists>turn. drainTasks s ! i = AwaitTranscribe turn
                                  \<and> transcribePcmTurn env turn = Rejected)" for s
  proof -
    from inv [OF s] i have none: "remove_nth i (drainTasks s) = []"
      by (simp add: remove_nth_single)
    from rej show ?thesis
    proof
      assume "fault env"
      with s i none show ?thesis
        by (simp add: drainResume_def Let_def drainFinally_def)
    next
      assume "\<exists>turn. drainTasks s ! i = AwaitTranscribe turn \<and> transcribePcmTurn env turn = Rejected"
      with s i none show ?thesis
        by (auto simp add: drainResume_def Let_def drainFinally_def)
    qed
  qed
  have restart: "map_option (\<lambda>x. (processingTurn x, drainTasks x))
                   (sessions (enqueueTurn sid turn (run ops initial)) sid)
                   = Some (True, [AwaitTranscribe (hd (push_capped 3 turn (turnQueue s)))])"
    if s: "sessions (run ops initial) sid = Some s" and idle: "\<not> processingTurn s" for s
  proof -
    from inv [OF s] idle have none: "drainTasks s = []" by simp
    obtain first rest where q: "push_capped 3 turn (turnQueue s) = first # rest"
      using push_capped_not_empty [of 3 turn "turnQueue s"]
      by (cases "push_capped 3 turn (turnQueue s)") simp_all
    from s idle none q show ?thesis
      by (simp add: enqueueTurn_def drainTurnQueue_def drainLoop_def)
  qed
  from inv rejected restart show ?thesis by blast
qed

theorem drain_guard_released_witness:
  "map_option (\<lambda>x. (processingTurn x, drainTasks x)) (sessions (run oneTurnInFlight initial) 3)
     = Some (True, [AwaitTranscribe \<lparr> samples = replicate 4000 16384 @ [0], sampleRate = 8000 \<rparr>])
   \<and> map_option (\<lambda>x. (processingTurn x, drainTasks x))
       (sessions (drainResume (quietEnv\<lparr> fault := True \<rparr>) 3 0 (run oneTurnInFlight initial)) 3)
     = Some (False, [])
   \<and> map_option (\<lambda>x. (processingTurn x, drainTasks x))
       (sessions (enqueueTurn 3 \<lparr> samples = [1], sampleRate = 8000 \<rparr>
          (run (oneTurnInFlight @ [DrainResume (quietEnv\<lparr> fault := True \<rparr>) 3 0]) initial)) 3)
     = Some (True, [AwaitTranscribe \<lparr> samples = [1], sampleRate = 8000 \<rparr>])"
proof -
  let ?turn = "\<lparr> samples = replicate 4000 16384 @ [0], sampleRate = 8000 \<rparr>"
  let ?fault = "quietEnv\<lparr> fault := True \<rparr>"
  let ?ops = "oneTurnInFlight @ [DrainResume ?fault 3 0]"
  obtain s where s: "sessions (run oneTurnInFlight initial) 3 = Some s"
    and t: "drainTasks s = [AwaitTranscribe ?turn]" and p: "processingTurn s"
    by (simp add: eval_defs frame_defs replicate_add [of 2000 2000, simplified, symmetric])
  obtain s' where s': "sessions (run ?ops initial) 3 = Some s'"
    and p': "\<not> processingTurn s'" and q': "turnQueue s' = []"
    by (simp add: eval_defs frame_defs)
  have f: "fault ?fault" by simp
  from s t p have 1: "map_option (\<lambda>x. (processingTurn x, drainTasks x))
                        (sessions (run oneTurnInFlight initial) 3) = Some (True, [AwaitTranscribe ?turn])"
    by simp
  from drain_guard_released [of oneTurnInFlight 3 0 ?fault] s t f
  have 2: "map_option (\<lambda>x. (processingTurn x, drainTasks x))
             (sessions (drainResume ?fault 3 0 (run oneTurnInFlight initial)) 3) = Some (False, [])"
    by simp
  from drain_guard_released [of ?ops 3 0 ?fault "\<lparr> samples = [1], sampleRate = 8000 \<rparr>"] s' p' q'
  have 3: "map_option (\<lambda>x. (processingTurn x, drainTasks x))
             (sessions (enqueueTurn 3 \<lparr> samples = [1], sampleRate = 8000 \<rparr> (run ?ops initial)) 3)
             = Some (True, [AwaitTranscribe \<lparr> samples = [1], sampleRate = 8000 \<rparr>])"
    by (simp add: push_capped_def)
  from 1 2 3 show ?thesis by blast
qed

end
